theory Spec2Isabelle
  imports Complex_Main "HOL-Library.Word" "HOL-Library.Monad_Syntax"
begin

unbundle bit_operations_syntax

section \<open>GameInputRecorder.ts: the input recorder\<close>

text \<open>
  Numbers that the recorder stores are integers: \<^verbatim>\<open>Date.now()\<close> is a whole number of
  milliseconds, \<^verbatim>\<open>Math.round\<close> returns a whole number, a score is a lane index. In the
  recorder they are modelled as \<open>int\<close>; the samples of \<^verbatim>\<open>performance.now()\<close> are fractional
  and are modelled as \<open>real\<close>. The records \<open>InputEvent\<close> and \<open>GameRecording\<close> are the objects
  that \<^verbatim>\<open>recordInput\<close> and \<^verbatim>\<open>stop\<close> build. What \<^verbatim>\<open>validate\<close> and \<^verbatim>\<open>serialize\<close> receive under
  the same interfaces is any value of the language, with \<^verbatim>\<open>NaN\<close> and the infinities among its
  numbers: the records \<open>artifact_event\<close> and \<open>artifact\<close> below.
\<close>

record InputEvent =
  timestamp :: int
  action :: string

record GameRecording =
  seed :: int
  startTime :: int
  inputs :: "InputEvent list"
  finalScore :: int
  duration :: int
  version :: string

text \<open>The private fields of the class \<^verbatim>\<open>GameInputRecorder\<close>; \<open>version\<close> is the constant
  \<^verbatim>\<open>'1.0.0'\<close>.\<close>

record GameInputRecorder =
  recording :: bool
  r_seed :: int
  r_startTime :: int
  gameStartTimestamp :: real
  r_inputs :: "InputEvent list"

definition recorder_version :: string where
  "recorder_version = ''1.0.0''"

definition new_GameInputRecorder :: GameInputRecorder where
  "new_GameInputRecorder =
     \<lparr>recording = False, r_seed = 0, r_startTime = 0, gameStartTimestamp = 0, r_inputs = []\<rparr>"

datatype recorder_error = RecorderNotActive | InvalidRecordingFormat | SyntaxError
  | PropertyOfNull | NotAGameRecording

text \<open>\<^verbatim>\<open>Math.round\<close>: the nearest integer, a tie going up.\<close>

definition Math_round :: "real \<Rightarrow> int" where
  "Math_round x = \<lfloor>x + 1 / 2\<rfloor>"

text \<open>
  \<^verbatim>\<open>start(seed?)\<close>. The optional argument is an \<open>int option\<close>. \<^verbatim>\<open>seed || Date.now()\<close> takes
  the clock when the argument is absent and also when it is falsy, that is \<open>0\<close>. The two
  calls of \<^verbatim>\<open>Date.now()\<close> are two samples, \<open>nowSeed\<close> and \<open>nowStart\<close>; \<open>perfNow\<close> is the sample
  of \<^verbatim>\<open>performance.now()\<close>.
\<close>

definition start :: "int option \<Rightarrow> int \<Rightarrow> int \<Rightarrow> real \<Rightarrow> GameInputRecorder \<Rightarrow> GameInputRecorder" where
  "start sd nowSeed nowStart perfNow r =
     r\<lparr>recording := True,
       r_seed := (case sd of None \<Rightarrow> nowSeed | Some s \<Rightarrow> if s \<noteq> 0 then s else nowSeed),
       r_startTime := nowStart,
       gameStartTimestamp := perfNow,
       r_inputs := []\<rparr>"

text \<open>\<^verbatim>\<open>recordInput(action)\<close> with the sample \<open>perfNow\<close> of the monotonic clock.\<close>

definition recordInput :: "string \<Rightarrow> real \<Rightarrow> GameInputRecorder \<Rightarrow> GameInputRecorder" where
  "recordInput a perfNow r =
     (if \<not> recording r then r
      else r\<lparr>r_inputs := r_inputs r @
             [\<lparr>timestamp = Math_round (perfNow - gameStartTimestamp r), action = a\<rparr>]\<rparr>)"

text \<open>\<^verbatim>\<open>stop(finalScore)\<close> with the sample \<open>nowStop\<close> of \<^verbatim>\<open>Date.now()\<close>: the thrown error is
  \<open>Inl\<close>, otherwise the recording and the recorder after the call.\<close>

definition stop :: "int \<Rightarrow> int \<Rightarrow> GameInputRecorder \<Rightarrow> recorder_error + GameRecording \<times> GameInputRecorder" where
  "stop fs nowStop r =
     (if \<not> recording r then Inl RecorderNotActive
      else Inr (\<lparr>seed = r_seed r, startTime = r_startTime r, inputs = r_inputs r,
                 finalScore = fs, duration = nowStop - r_startTime r,
                 version = recorder_version\<rparr>,
                r\<lparr>recording := False\<rparr>))"

definition isRecording :: "GameInputRecorder \<Rightarrow> bool" where
  "isRecording r = recording r"

definition getInputCount :: "GameInputRecorder \<Rightarrow> nat" where
  "getInputCount r = length (r_inputs r)"

text \<open>A run of \<^verbatim>\<open>recordInput\<close> calls, each with its action and its clock sample.\<close>

fun recordInputs :: "(string \<times> real) list \<Rightarrow> GameInputRecorder \<Rightarrow> GameInputRecorder" where
  "recordInputs [] r = r"
| "recordInputs ((a, t) # cs) r = recordInputs cs (recordInput a t r)"

subsection \<open>The recording at run time\<close>

text \<open>The interfaces \<^verbatim>\<open>InputEvent\<close> and \<^verbatim>\<open>GameRecording\<close> exist for the compiler only. At run time
  \<^verbatim>\<open>validate\<close> and \<^verbatim>\<open>serialize\<close> receive what the caller passes, and a field of type \<^verbatim>\<open>number\<close>
  holds any number of the language: a finite one, \<^verbatim>\<open>NaN\<close>, \<^verbatim>\<open>Infinity\<close> or \<^verbatim>\<open>-Infinity\<close>. The
  finite numbers are the type \<open>'d\<close>, with its zero and its order; \<open>-0\<close> and \<open>0\<close> are one number,
  as they are for \<^verbatim>\<open>===\<close>.\<close>

datatype 'd number = Finite 'd | NaN | Infinity | NegInfinity

definition is_finite :: "'d number \<Rightarrow> bool" where
  "is_finite n = (case n of Finite d \<Rightarrow> True | _ \<Rightarrow> False)"

text \<open>A number in a condition: \<open>0\<close> and \<^verbatim>\<open>NaN\<close> are falsy.\<close>

definition truthy_number :: "('d::zero) number \<Rightarrow> bool" where
  "truthy_number n = (case n of Finite d \<Rightarrow> d \<noteq> 0 | NaN \<Rightarrow> False | _ \<Rightarrow> True)"

text \<open>The operator \<^verbatim>\<open><\<close> on two numbers: false as soon as one of them is \<^verbatim>\<open>NaN\<close>.\<close>

fun js_less :: "('d::linorder) number \<Rightarrow> 'd number \<Rightarrow> bool" where
  "js_less NaN y = False"
| "js_less x NaN = False"
| "js_less (Finite a) (Finite b) = (a < b)"
| "js_less (Finite a) Infinity = True"
| "js_less (Finite a) NegInfinity = False"
| "js_less Infinity y = False"
| "js_less NegInfinity NegInfinity = False"
| "js_less NegInfinity y = True"

text \<open>An input event and a recording as \<^verbatim>\<open>validate\<close> and \<^verbatim>\<open>serialize\<close> find them. The three
  properties that \<^verbatim>\<open>validate\<close> tests may be absent (\<open>None\<close>, the value \<^verbatim>\<open>undefined\<close>). An element
  of \<^verbatim>\<open>inputs\<close> may be \<^verbatim>\<open>null\<close> (\<open>None\<close>): the cast in \<^verbatim>\<open>deserialize\<close> checks nothing, and the text
  \<^verbatim>\<open>null\<close> is an element of a JSON array like any other.\<close>

record 'd artifact_event =
  ev_timestamp :: "'d number"
  ev_action :: string

record 'd artifact =
  a_seed :: "'d number option"
  a_startTime :: "'d number option"
  a_inputs :: "'d artifact_event option list option"
  a_finalScore :: "'d number"
  a_duration :: "'d number"
  a_version :: string

text \<open>The recording that \<^verbatim>\<open>stop\<close> returns, as such a value: its numbers are the integers of the
  recorder.\<close>

definition artifact_of :: "GameRecording \<Rightarrow> int artifact" where
  "artifact_of rc =
     \<lparr>a_seed = Some (Finite (seed rc)), a_startTime = Some (Finite (startTime rc)),
       a_inputs = Some (map (\<lambda>e. Some \<lparr>ev_timestamp = Finite (timestamp e), ev_action = action e\<rparr>)
                          (inputs rc)),
       a_finalScore = Finite (finalScore rc), a_duration = Finite (duration rc),
       a_version = version rc\<rparr>"

subsection \<open>validate\<close>

definition validActions :: "string list" where
  "validActions = [''forward'', ''backward'', ''left'', ''right'']"

text \<open>A property of a value that is absent, or present and falsy: \<^verbatim>\<open>!recording.seed\<close>.\<close>

definition truthy_field :: "('d::zero) number option \<Rightarrow> bool" where
  "truthy_field x = (case x of None \<Rightarrow> False | Some n \<Rightarrow> truthy_number n)"

text \<open>The first loop of \<^verbatim>\<open>validate\<close>: \<^verbatim>\<open>for (i = 1; i < inputs.length; i++)\<close> compares
  \<^verbatim>\<open>inputs[i].timestamp\<close> with \<^verbatim>\<open>inputs[i - 1].timestamp\<close> and leaves with false at the first
  pair that decreases. Reading \<^verbatim>\<open>.timestamp\<close> of an element that is \<^verbatim>\<open>null\<close> throws a TypeError;
  the left operand \<^verbatim>\<open>inputs[i]\<close> is read first.\<close>

fun inputs_ordered :: "('d::linorder) artifact_event option list \<Rightarrow> recorder_error + bool" where
  "inputs_ordered (a # b # xs) =
     (case b of
        None \<Rightarrow> Inl PropertyOfNull
      | Some eb \<Rightarrow>
          (case a of
             None \<Rightarrow> Inl PropertyOfNull
           | Some ea \<Rightarrow>
               if js_less (ev_timestamp eb) (ev_timestamp ea) then Inr False
               else inputs_ordered (b # xs)))"
| "inputs_ordered _ = Inr True"

text \<open>The second loop: \<^verbatim>\<open>for (const input of inputs)\<close> reads \<^verbatim>\<open>input.action\<close>, which throws on
  \<^verbatim>\<open>null\<close>, and leaves with false at the first action that \<^verbatim>\<open>validActions\<close> does not include.\<close>

fun actions_valid :: "'d artifact_event option list \<Rightarrow> recorder_error + bool" where
  "actions_valid [] = Inr True"
| "actions_valid (x # xs) =
     (case x of
        None \<Rightarrow> Inl PropertyOfNull
      | Some e \<Rightarrow> if ev_action e \<notin> set validActions then Inr False else actions_valid xs)"

text \<open>\<^verbatim>\<open>validate\<close>: the test of the three required properties, then the two loops. An array is
  truthy, also the empty one.\<close>

definition validate :: "('d::{zero,linorder}) artifact \<Rightarrow> recorder_error + bool" where
  "validate a =
     (if \<not> truthy_field (a_seed a) \<or> a_inputs a = None \<or> \<not> truthy_field (a_startTime a)
      then Inr False
      else
        (case inputs_ordered (the (a_inputs a)) of
           Inl e \<Rightarrow> Inl e
         | Inr ordered \<Rightarrow>
             if \<not> ordered then Inr False else actions_valid (the (a_inputs a))))"

text \<open>The elements of \<^verbatim>\<open>inputs\<close>, none when the property is absent; and the operator \<^verbatim>\<open><=\<close>
  on two numbers, false as soon as one of them is \<^verbatim>\<open>NaN\<close>.\<close>

definition events :: "'d artifact \<Rightarrow> 'd artifact_event option list" where
  "events a = (case a_inputs a of None \<Rightarrow> [] | Some es \<Rightarrow> es)"

definition js_le :: "('d::linorder) number \<Rightarrow> 'd number \<Rightarrow> bool" where
  "js_le x y = (x \<noteq> NaN \<and> y \<noteq> NaN \<and> \<not> js_less y x)"

text \<open>The numbers of a recording are all finite.\<close>

definition finite_field :: "'d number option \<Rightarrow> bool" where
  "finite_field x = (case x of None \<Rightarrow> True | Some n \<Rightarrow> is_finite n)"

definition finite_event :: "'d artifact_event option \<Rightarrow> bool" where
  "finite_event x = (case x of None \<Rightarrow> True | Some e \<Rightarrow> is_finite (ev_timestamp e))"

definition numbers_finite :: "'d artifact \<Rightarrow> bool" where
  "numbers_finite a =
     (finite_field (a_seed a) \<and> finite_field (a_startTime a) \<and>
      (case a_inputs a of None \<Rightarrow> True | Some es \<Rightarrow> list_all finite_event es) \<and>
      is_finite (a_finalScore a) \<and> is_finite (a_duration a))"

section \<open>JSON text: serialize and deserialize\<close>

text \<open>The values of the language that a JSON text can denote, and with them the numbers that it
  cannot: a number is any number of the language. A string is a list of characters with codes
  below \<open>256\<close>; an object is the list of its members in the order of the text.\<close>

datatype 'd json = JNull | JBool bool | JNumber "'d number" | JString string
  | JArray "'d json list" | JObject "(string \<times> 'd json) list"

text \<open>A string is written between double quotes (code \<open>0x22\<close>). The backslash (code \<open>0x5C\<close>) escapes
  the double quote and the backslash; backspace, tab, line feed, form feed and carriage return have
  the short escapes \<^verbatim>\<open>b t n f r\<close>, every other character below \<open>0x20\<close> is written with
  \<^verbatim>\<open>u00\<close> and two lower-case hexadecimal digits.\<close>

definition hex_digit :: "nat \<Rightarrow> char" where
  "hex_digit d = (if d < 10 then char_of (48 + d) else char_of (87 + d))"

definition escape_char :: "char \<Rightarrow> string" where
  "escape_char c =
     (let n = (of_char c :: nat) in
      if n = 8 then [CHR 0x5C, CHR ''b'']
      else if n = 9 then [CHR 0x5C, CHR ''t'']
      else if n = 10 then [CHR 0x5C, CHR ''n'']
      else if n = 12 then [CHR 0x5C, CHR ''f'']
      else if n = 13 then [CHR 0x5C, CHR ''r'']
      else if n = 34 then [CHR 0x5C, CHR 0x22]
      else if n = 92 then [CHR 0x5C, CHR 0x5C]
      else if n < 32
      then [CHR 0x5C, CHR ''u'', CHR ''0'', CHR ''0'', hex_digit (n div 16), hex_digit (n mod 16)]
      else [c])"

definition quote :: "string \<Rightarrow> string" where
  "quote s = CHR 0x22 # concat (map escape_char s) @ [CHR 0x22]"

text \<open>The text of a value, with no white space: elements and members are separated by commas,
  a member is its quoted key, a colon and its value. The text of a finite number is made by the
  language (\<^verbatim>\<open>Number::toString\<close>, which writes the shortest decimal numeral that reads back as
  the number, with an exponent from \<open>1e21\<close>); it is the parameter \<open>shw\<close>. \<^verbatim>\<open>NaN\<close> and the
  infinities are written \<^verbatim>\<open>null\<close>.\<close>

fun print_value :: "('d \<Rightarrow> string) \<Rightarrow> 'd json \<Rightarrow> string"
  and print_elements :: "('d \<Rightarrow> string) \<Rightarrow> 'd json list \<Rightarrow> string"
  and print_members :: "('d \<Rightarrow> string) \<Rightarrow> (string \<times> 'd json) list \<Rightarrow> string" where
  "print_value shw JNull = ''null''"
| "print_value shw (JBool b) = (if b then ''true'' else ''false'')"
| "print_value shw (JNumber n) = (case n of Finite d \<Rightarrow> shw d | _ \<Rightarrow> ''null'')"
| "print_value shw (JString s) = quote s"
| "print_value shw (JArray vs) = CHR ''['' # print_elements shw vs"
| "print_value shw (JObject ms) = CHR ''{'' # print_members shw ms"
| "print_elements shw [] = '']''"
| "print_elements shw [v] = print_value shw v @ '']''"
| "print_elements shw (v # w # vs) = print_value shw v @ '','' @ print_elements shw (w # vs)"
| "print_members shw [] = ''}''"
| "print_members shw [(k, v)] = quote k @ '':'' @ print_value shw v @ ''}''"
| "print_members shw ((k, v) # m # ms) =
     quote k @ '':'' @ print_value shw v @ '','' @ print_members shw (m # ms)"

text \<open>Reading. White space (space, tab, line feed, carriage return) may stand before every
  token.\<close>

definition is_ws :: "char \<Rightarrow> bool" where
  "is_ws c = ((of_char c :: nat) = 32 \<or> (of_char c :: nat) = 9 \<or> (of_char c :: nat) = 10 \<or>
              (of_char c :: nat) = 13)"

definition skip_ws :: "string \<Rightarrow> string" where
  "skip_ws s = dropWhile is_ws s"

text \<open>The numeral of a number: an optional minus sign, the digits of the integer part (not empty,
  and no \<open>0\<close> in front of another digit), an optional fraction (a point and at least one digit)
  and an optional exponent (\<^verbatim>\<open>e\<close> or \<^verbatim>\<open>E\<close>, an optional sign, at least one digit).\<close>

definition is_digit :: "char \<Rightarrow> bool" where
  "is_digit c = (48 \<le> (of_char c :: nat) \<and> (of_char c :: nat) \<le> 57)"

definition number_char :: "char \<Rightarrow> bool" where
  "number_char c =
     (is_digit c \<or> c = CHR ''-'' \<or> c = CHR ''+'' \<or> c = CHR ''.'' \<or> c = CHR ''e'' \<or> c = CHR ''E'')"

definition strip_minus :: "string \<Rightarrow> string" where
  "strip_minus s = (case s of [] \<Rightarrow> [] | c # cs \<Rightarrow> if c = CHR ''-'' then cs else s)"

definition strip_sign :: "string \<Rightarrow> string" where
  "strip_sign s =
     (case s of [] \<Rightarrow> [] | c # cs \<Rightarrow> if c = CHR ''-'' \<or> c = CHR ''+'' then cs else s)"

definition exponent_syntax :: "string \<Rightarrow> bool" where
  "exponent_syntax s =
     (case s of
        [] \<Rightarrow> True
      | c # cs \<Rightarrow> (c = CHR ''e'' \<or> c = CHR ''E'') \<and> strip_sign cs \<noteq> [] \<and>
                 list_all is_digit (strip_sign cs))"

definition fraction_syntax :: "string \<Rightarrow> bool" where
  "fraction_syntax s =
     (case s of
        [] \<Rightarrow> True
      | c # cs \<Rightarrow>
          if c = CHR ''.''
          then takeWhile is_digit cs \<noteq> [] \<and> exponent_syntax (dropWhile is_digit cs)
          else exponent_syntax s)"

definition json_number_syntax :: "string \<Rightarrow> bool" where
  "json_number_syntax s =
     (let ds = takeWhile is_digit (strip_minus s) in
      ds \<noteq> [] \<and> (hd ds \<noteq> CHR ''0'' \<or> length ds = 1) \<and>
      fraction_syntax (dropWhile is_digit (strip_minus s)))"

text \<open>The token of a number is the longest run of characters that occur in numerals; a run that
  is no numeral is a syntax error, as is every text in which a numeral is followed by one more
  such character.\<close>

definition number_token :: "string \<Rightarrow> (string \<times> string) option" where
  "number_token s =
     (if json_number_syntax (takeWhile number_char s)
      then Some (takeWhile number_char s, dropWhile number_char s) else None)"

text \<open>The characters of a string up to the closing double quote, with the escapes undone:
  the result is the string and the text after the quote. An unescaped character below \<open>0x20\<close>
  is refused, and so is an escape \<^verbatim>\<open>u\<close> whose code is \<open>256\<close> or more.\<close>

definition hex_value :: "char \<Rightarrow> nat option" where
  "hex_value c =
     (let n = (of_char c :: nat) in
      if 48 \<le> n \<and> n \<le> 57 then Some (n - 48)
      else if 97 \<le> n \<and> n \<le> 102 then Some (n - 87)
      else if 65 \<le> n \<and> n \<le> 70 then Some (n - 55)
      else None)"

definition hex4 :: "char \<Rightarrow> char \<Rightarrow> char \<Rightarrow> char \<Rightarrow> nat option" where
  "hex4 a b c d =
     (case (hex_value a, hex_value b, hex_value c, hex_value d) of
        (Some w, Some x, Some y, Some z) \<Rightarrow> Some (4096 * w + 256 * x + 16 * y + z)
      | _ \<Rightarrow> None)"

definition unescape :: "char \<Rightarrow> char option" where
  "unescape e =
     (if e = CHR 0x22 then Some (CHR 0x22)
      else if e = CHR 0x5C then Some (CHR 0x5C)
      else if e = CHR ''/'' then Some (CHR ''/'')
      else if e = CHR ''b'' then Some (CHR 0x08)
      else if e = CHR ''f'' then Some (CHR 0x0C)
      else if e = CHR ''n'' then Some (CHR 0x0A)
      else if e = CHR ''r'' then Some (CHR 0x0D)
      else if e = CHR ''t'' then Some (CHR 0x09)
      else None)"

fun parse_chars :: "string \<Rightarrow> (string \<times> string) option" where
  "parse_chars [] = None"
| "parse_chars (c # cs) =
     (if c = CHR 0x22 then Some ([], cs)
      else if c = CHR 0x5C then
        (case cs of
           [] \<Rightarrow> None
         | e # cs1 \<Rightarrow>
             if e = CHR ''u'' then
               (case cs1 of
                  h1 # h2 # h3 # h4 # cs2 \<Rightarrow>
                    (case hex4 h1 h2 h3 h4 of
                       None \<Rightarrow> None
                     | Some n \<Rightarrow>
                         if n < 256
                         then map_option (\<lambda>(s, rest). (char_of n # s, rest)) (parse_chars cs2)
                         else None)
                | _ \<Rightarrow> None)
             else
               (case unescape e of
                  None \<Rightarrow> None
                | Some ch \<Rightarrow> map_option (\<lambda>(s, rest). (ch # s, rest)) (parse_chars cs1)))
      else if (of_char c :: nat) < 32 then None
      else map_option (\<lambda>(s, rest). (c # s, rest)) (parse_chars cs))"

text \<open>A value, the elements of an array after its bracket, the members of an object after its
  brace. The number that a numeral denotes is found by the language (\<^verbatim>\<open>StringToNumber\<close>, which
  rounds to the nearest number and gives an infinity beyond the largest); it is the parameter
  \<open>rd\<close>. The recursion is on the fuel; \<open>JSON_parse\<close> gives one more than the length of the text.
  \<open>None\<close> is a text that is not JSON.\<close>

fun parse_value :: "(string \<Rightarrow> 'd number) \<Rightarrow> nat \<Rightarrow> string \<Rightarrow> ('d json \<times> string) option"
  and parse_elements ::
    "(string \<Rightarrow> 'd number) \<Rightarrow> nat \<Rightarrow> string \<Rightarrow> ('d json list \<times> string) option"
  and parse_members ::
    "(string \<Rightarrow> 'd number) \<Rightarrow> nat \<Rightarrow> string \<Rightarrow> ((string \<times> 'd json) list \<times> string) option" where
  "parse_value rd 0 s = None"
| "parse_value rd (Suc fuel) s =
     (case skip_ws s of
        [] \<Rightarrow> None
      | c # cs \<Rightarrow>
          if c = CHR ''n'' then
            (if take 3 cs = ''ull'' then Some (JNull, drop 3 cs) else None)
          else if c = CHR ''t'' then
            (if take 3 cs = ''rue'' then Some (JBool True, drop 3 cs) else None)
          else if c = CHR ''f'' then
            (if take 4 cs = ''alse'' then Some (JBool False, drop 4 cs) else None)
          else if c = CHR 0x22 then map_option (\<lambda>(s, rest). (JString s, rest)) (parse_chars cs)
          else if c = CHR ''['' then
            (case skip_ws cs of
               [] \<Rightarrow> None
             | d # ds \<Rightarrow>
                 if d = CHR '']'' then Some (JArray [], ds)
                 else map_option (\<lambda>(vs, rest). (JArray vs, rest)) (parse_elements rd fuel cs))
          else if c = CHR ''{'' then
            (case skip_ws cs of
               [] \<Rightarrow> None
             | d # ds \<Rightarrow>
                 if d = CHR ''}'' then Some (JObject [], ds)
                 else map_option (\<lambda>(ms, rest). (JObject ms, rest)) (parse_members rd fuel cs))
          else map_option (\<lambda>(tok, rest). (JNumber (rd tok), rest)) (number_token (c # cs)))"
| "parse_elements rd 0 s = None"
| "parse_elements rd (Suc fuel) s =
     (case parse_value rd fuel s of
        None \<Rightarrow> None
      | Some (v, rest) \<Rightarrow>
          (case skip_ws rest of
             [] \<Rightarrow> None
           | c # cs \<Rightarrow>
               if c = CHR '','' then
                 map_option (\<lambda>(vs, rest'). (v # vs, rest')) (parse_elements rd fuel cs)
               else if c = CHR '']'' then Some ([v], cs)
               else None))"
| "parse_members rd 0 s = None"
| "parse_members rd (Suc fuel) s =
     (case skip_ws s of
        [] \<Rightarrow> None
      | q # cs \<Rightarrow>
          if q \<noteq> CHR 0x22 then None
          else
            (case parse_chars cs of
               None \<Rightarrow> None
             | Some (k, rest) \<Rightarrow>
                 (case skip_ws rest of
                    [] \<Rightarrow> None
                  | c # cs1 \<Rightarrow>
                      if c \<noteq> CHR '':'' then None
                      else
                        (case parse_value rd fuel cs1 of
                           None \<Rightarrow> None
                         | Some (v, rest1) \<Rightarrow>
                             (case skip_ws rest1 of
                                [] \<Rightarrow> None
                              | d # cs2 \<Rightarrow>
                                  if d = CHR '','' then
                                    map_option (\<lambda>(ms, rest2). ((k, v) # ms, rest2))
                                      (parse_members rd fuel cs2)
                                  else if d = CHR ''}'' then Some ([(k, v)], cs2)
                                  else None)))))"

text \<open>\<^verbatim>\<open>JSON.stringify\<close> and \<^verbatim>\<open>JSON.parse\<close>, the functions of the language that \<^verbatim>\<open>serialize\<close> and
  \<^verbatim>\<open>deserialize\<close> call: \<^verbatim>\<open>JSON.parse\<close> reads one value and nothing but white space after it.\<close>

definition JSON_stringify :: "('d \<Rightarrow> string) \<Rightarrow> 'd json \<Rightarrow> string" where
  "JSON_stringify shw v = print_value shw v"

definition JSON_parse :: "(string \<Rightarrow> 'd number) \<Rightarrow> string \<Rightarrow> 'd json option" where
  "JSON_parse rd s =
     (case parse_value rd (Suc (length s)) s of
        None \<Rightarrow> None
      | Some (v, rest) \<Rightarrow> if skip_ws rest = [] then Some v else None)"

text \<open>What the language promises of the two conversions: the text of a finite number is a
  numeral, and read back it is that number.\<close>

definition number_codec :: "('d \<Rightarrow> string) \<Rightarrow> (string \<Rightarrow> 'd number) \<Rightarrow> bool" where
  "number_codec shw rd = (\<forall>d. json_number_syntax (shw d) \<and> rd (shw d) = Finite d)"

text \<open>The value that comes back from the text of a value: \<^verbatim>\<open>null\<close> where a number was not
  finite.\<close>

primrec json_image :: "'d json \<Rightarrow> 'd json" where
  "json_image JNull = JNull"
| "json_image (JBool b) = JBool b"
| "json_image (JNumber n) = (if is_finite n then JNumber n else JNull)"
| "json_image (JString s) = JString s"
| "json_image (JArray vs) = JArray (map json_image vs)"
| "json_image (JObject ms) = JObject (map (map_prod id json_image) ms)"

text \<open>The JavaScript object of an input event and of a recording, with the properties in the
  order in which \<^verbatim>\<open>recordInput\<close> and \<^verbatim>\<open>stop\<close> write them; an absent property is no member.\<close>

definition js_event :: "'d artifact_event option \<Rightarrow> 'd json" where
  "js_event x =
     (case x of
        None \<Rightarrow> JNull
      | Some e \<Rightarrow>
          JObject [(''timestamp'', JNumber (ev_timestamp e)), (''action'', JString (ev_action e))])"

definition js_field :: "string \<Rightarrow> 'd json option \<Rightarrow> (string \<times> 'd json) list" where
  "js_field k x = (case x of None \<Rightarrow> [] | Some v \<Rightarrow> [(k, v)])"

definition js_value :: "'d artifact \<Rightarrow> 'd json" where
  "js_value a =
     JObject (js_field ''seed'' (map_option JNumber (a_seed a)) @
              js_field ''startTime'' (map_option JNumber (a_startTime a)) @
              js_field ''inputs'' (map_option (\<lambda>es. JArray (map js_event es)) (a_inputs a)) @
              [(''finalScore'', JNumber (a_finalScore a)),
               (''duration'', JNumber (a_duration a)),
               (''version'', JString (a_version a))])"

text \<open>Reading a property: of \<^verbatim>\<open>null\<close> it throws a TypeError; of an object it is the value of the
  last member with that key, or \<^verbatim>\<open>undefined\<close> (\<open>None\<close>); of any other value it is \<^verbatim>\<open>undefined\<close>
  for the keys read here.\<close>

definition get_property :: "'d json \<Rightarrow> string \<Rightarrow> recorder_error + 'd json option" where
  "get_property v k =
     (case v of
        JNull \<Rightarrow> Inl PropertyOfNull
      | JObject ms \<Rightarrow> Inr (map_of (rev ms) k)
      | _ \<Rightarrow> Inr None)"

text \<open>A value in a condition: \<^verbatim>\<open>undefined\<close>, \<^verbatim>\<open>null\<close>, \<^verbatim>\<open>false\<close>, \<open>0\<close>, \<^verbatim>\<open>NaN\<close> and the empty string
  are falsy.\<close>

definition truthy_js :: "('d::zero) json option \<Rightarrow> bool" where
  "truthy_js x =
     (case x of
        None \<Rightarrow> False
      | Some JNull \<Rightarrow> False
      | Some (JBool b) \<Rightarrow> b
      | Some (JNumber n) \<Rightarrow> truthy_number n
      | Some (JString s) \<Rightarrow> s \<noteq> []
      | Some (JArray vs) \<Rightarrow> True
      | Some (JObject ms) \<Rightarrow> True)"

definition Array_isArray :: "'d json option \<Rightarrow> bool" where
  "Array_isArray x = (case x of Some (JArray vs) \<Rightarrow> True | _ \<Rightarrow> False)"

text \<open>\<^verbatim>\<open>serialize\<close> and \<^verbatim>\<open>deserialize\<close>. The test
  \<^verbatim>\<open>!recording.seed || !recording.inputs || !Array.isArray(recording.inputs)\<close> is evaluated from the
  left; the check of the version only writes a warning; the cast \<^verbatim>\<open>as GameRecording\<close> checks
  nothing, and the value that was read is returned as it is.\<close>

definition serialize :: "('d \<Rightarrow> string) \<Rightarrow> 'd artifact \<Rightarrow> string" where
  "serialize shw a = JSON_stringify shw (js_value a)"

definition deserialize ::
  "(string \<Rightarrow> ('d::zero) number) \<Rightarrow> string \<Rightarrow> recorder_error + 'd json" where
  "deserialize rd data =
     (case JSON_parse rd data of
        None \<Rightarrow> Inl SyntaxError
      | Some parsed \<Rightarrow>
          (case get_property parsed ''seed'' of
             Inl e \<Rightarrow> Inl e
           | Inr sd \<Rightarrow>
               if \<not> truthy_js sd then Inl InvalidRecordingFormat
               else
                 (case get_property parsed ''inputs'' of
                    Inl e \<Rightarrow> Inl e
                  | Inr inp \<Rightarrow>
                      if \<not> truthy_js inp \<or> \<not> Array_isArray inp then Inl InvalidRecordingFormat
                      else Inr parsed)))"

text \<open>The value that \<^verbatim>\<open>deserialize\<close> returned, read field by field as a recording; \<open>None\<close> is
  a value that has not the types of the interface.\<close>

definition as_event :: "'d json \<Rightarrow> 'd artifact_event option option" where
  "as_event v =
     (case v of
        JNull \<Rightarrow> Some None
      | JObject ms \<Rightarrow>
          (case (map_of (rev ms) ''timestamp'', map_of (rev ms) ''action'') of
             (Some (JNumber t), Some (JString a)) \<Rightarrow> Some (Some \<lparr>ev_timestamp = t, ev_action = a\<rparr>)
           | _ \<Rightarrow> None)
      | _ \<Rightarrow> None)"

definition as_number :: "'d json option \<Rightarrow> 'd number option option" where
  "as_number x =
     (case x of None \<Rightarrow> Some None | Some (JNumber n) \<Rightarrow> Some (Some n) | _ \<Rightarrow> None)"

definition as_events :: "'d json option \<Rightarrow> 'd artifact_event option list option option" where
  "as_events x =
     (case x of
        None \<Rightarrow> Some None
      | Some (JArray vs) \<Rightarrow> map_option Some (those (map as_event vs))
      | _ \<Rightarrow> None)"

definition as_artifact :: "'d json \<Rightarrow> 'd artifact option" where
  "as_artifact v =
     (case v of
        JObject ms \<Rightarrow>
          (case (as_number (map_of (rev ms) ''seed''), as_number (map_of (rev ms) ''startTime''),
                 as_events (map_of (rev ms) ''inputs''), map_of (rev ms) ''finalScore'',
                 map_of (rev ms) ''duration'', map_of (rev ms) ''version'') of
             (Some sd, Some st, Some es, Some (JNumber fs), Some (JNumber du), Some (JString ve)) \<Rightarrow>
               Some \<lparr>a_seed = sd, a_startTime = st, a_inputs = es, a_finalScore = fs,
                     a_duration = du, a_version = ve\<rparr>
           | _ \<Rightarrow> None)
      | _ \<Rightarrow> None)"

text \<open>Where the text of a number may end: at the end of the text, or before a character that
  occurs in no numeral.\<close>

definition number_end :: "string \<Rightarrow> bool" where
  "number_end rest = (case rest of [] \<Rightarrow> True | c # cs \<Rightarrow> \<not> number_char c)"

text \<open>The characters with which the text of a value can start: no white space, no closing
  bracket or brace.\<close>

definition value_start :: "char \<Rightarrow> bool" where
  "value_start c = (\<not> is_ws c \<and> c \<noteq> CHR '']'' \<and> c \<noteq> CHR ''}'')"

subsection \<open>The two conversions where every finite number is an integer\<close>

text \<open>An example of the two conversions: the finite numbers are the integers, written in
  decimal, a negative one behind a minus sign; a numeral that is no integer in decimal is read
  as \<^verbatim>\<open>NaN\<close>.\<close>

definition digit_char :: "nat \<Rightarrow> char" where
  "digit_char d = char_of (48 + d)"

definition digit_value :: "char \<Rightarrow> nat" where
  "digit_value c = of_char c - 48"

function digits :: "nat \<Rightarrow> string" where
  "digits n = (if n < 10 then [digit_char n] else digits (n div 10) @ [digit_char (n mod 10)])"
  by pat_completeness auto
termination
  by (relation "measure id") auto

definition show_integer :: "int \<Rightarrow> string" where
  "show_integer n = (if n < 0 then CHR ''-'' # digits (nat (- n)) else digits (nat n))"

definition digits_number :: "string \<Rightarrow> nat" where
  "digits_number ds = foldl (\<lambda>a c. 10 * a + digit_value c) 0 ds"

definition read_integer :: "string \<Rightarrow> int number" where
  "read_integer s =
     (if strip_minus s = [] \<or> \<not> list_all is_digit (strip_minus s) then NaN
      else if strip_minus s = s then Finite (int (digits_number s))
      else Finite (- int (digits_number (strip_minus s))))"

text \<open>Example recordings: one as the recorder returns it, one whose seed is \<^verbatim>\<open>Infinity\<close>, one
  whose final score is \<^verbatim>\<open>NaN\<close>, one with an unknown action before an element \<^verbatim>\<open>null\<close>, one
  with the timestamps \<open>5\<close>, \<^verbatim>\<open>NaN\<close>, \<open>3\<close>, one whose second timestamp is less than the first,
  and one with the action \<^verbatim>\<open>jump\<close>.\<close>

definition example_recording :: GameRecording where
  "example_recording =
     \<lparr>seed = 42, startTime = 1700000000000,
       inputs = [\<lparr>timestamp = 0, action = ''forward''\<rparr>, \<lparr>timestamp = 250, action = ''left''\<rparr>],
       finalScore = 1, duration = 1234, version = ''1.0.0''\<rparr>"

definition infinite_seed :: "int artifact" where
  "infinite_seed = (artifact_of example_recording)\<lparr>a_seed := Some Infinity\<rparr>"

definition nan_score :: "int artifact" where
  "nan_score = (artifact_of example_recording)\<lparr>a_finalScore := NaN\<rparr>"

definition null_element :: "int artifact" where
  "null_element =
     (artifact_of example_recording)
       \<lparr>a_inputs := Some [Some \<lparr>ev_timestamp = Finite 5, ev_action = ''jump''\<rparr>, None]\<rparr>"

definition nan_timestamp :: "int artifact" where
  "nan_timestamp =
     (artifact_of example_recording)
       \<lparr>a_inputs := Some [Some \<lparr>ev_timestamp = Finite 5, ev_action = ''forward''\<rparr>,
                          Some \<lparr>ev_timestamp = NaN, ev_action = ''left''\<rparr>,
                          Some \<lparr>ev_timestamp = Finite 3, ev_action = ''right''\<rparr>]\<rparr>"

definition decreasing_pair :: "int artifact" where
  "decreasing_pair =
     (artifact_of example_recording)
       \<lparr>a_inputs := Some [Some \<lparr>ev_timestamp = Finite 250, ev_action = ''forward''\<rparr>,
                          Some \<lparr>ev_timestamp = Finite 100, ev_action = ''left''\<rparr>]\<rparr>"

definition unknown_action :: "int artifact" where
  "unknown_action =
     (artifact_of example_recording)
       \<lparr>a_inputs := Some [Some \<lparr>ev_timestamp = Finite 100, ev_action = ''jump''\<rparr>]\<rparr>"

section \<open>SeededRandom.ts: the seeded generator\<close>

text \<open>
  The field \<^verbatim>\<open>seed\<close> of the class is a JavaScript number. The constructor and \<^verbatim>\<open>reset\<close> store
  \<^verbatim>\<open>Math.abs(seed) >>> 0\<close>, a value below \<open>2 ^ 32\<close>; \<^verbatim>\<open>random()\<close> adds \<^verbatim>\<open>0x6D2B79F5\<close> to it with
  no wrap-around, so the state is modelled as a \<open>nat\<close> that grows. Every later operator
  (\<^verbatim>\<open>^\<close>, \<^verbatim>\<open>|\<close>, \<^verbatim>\<open>>>>\<close>, \<^verbatim>\<open>Math.imul\<close>) reads its operands modulo \<open>2 ^ 32\<close>: they are operations of
  \<open>32 word\<close>. The loss of precision of a double above \<open>2 ^ 53\<close> is outside this model.
\<close>

definition SeededRandom :: "real \<Rightarrow> nat" where
  "SeededRandom s = nat \<lfloor>\<bar>s\<bar>\<rfloor> mod 2 ^ 32"

definition reset :: "real \<Rightarrow> nat \<Rightarrow> nat" where
  "reset newSeed st = nat \<lfloor>\<bar>newSeed\<bar>\<rfloor> mod 2 ^ 32"

definition getSeed :: "nat \<Rightarrow> nat" where
  "getSeed st = st"

text \<open>The 32 bits that \<^verbatim>\<open>random()\<close> computes from the new state (Mulberry32); \<^verbatim>\<open>>>>\<close> binds
  tighter than \<^verbatim>\<open>^\<close>, and \<^verbatim>\<open>+\<close> tighter than \<^verbatim>\<open>^\<close>.\<close>

definition mulberry32 :: "32 word \<Rightarrow> 32 word" where
  "mulberry32 t0 =
     (let t1 = (t0 XOR drop_bit 15 t0) * (t0 OR 1);
          t2 = t1 XOR (t1 + (t1 XOR drop_bit 7 t1) * (t1 OR 61))
      in t2 XOR drop_bit 14 t2)"

text \<open>\<^verbatim>\<open>random()\<close>: the number returned and the state after the call.\<close>

definition random :: "nat \<Rightarrow> real \<times> nat" where
  "random st =
     (let st' = st + 0x6D2B79F5
      in (real (unat (mulberry32 (word_of_nat st'))) / 4294967296, st'))"

definition randomInt :: "int \<Rightarrow> int \<Rightarrow> nat \<Rightarrow> int \<times> nat" where
  "randomInt mn mx st =
     (let (r, st') = random st in (\<lfloor>r * real_of_int (mx - mn)\<rfloor> + mn, st'))"

text \<open>\<^verbatim>\<open>randomElement(array)\<close>: reading an array at an index that it does not have gives
  \<^verbatim>\<open>undefined\<close>, here \<open>None\<close>.\<close>

definition array_get :: "'a list \<Rightarrow> int \<Rightarrow> 'a option" where
  "array_get xs i = (if 0 \<le> i \<and> i < int (length xs) then Some (xs ! nat i) else None)"

definition randomElement :: "'a list \<Rightarrow> nat \<Rightarrow> 'a option \<times> nat" where
  "randomElement array st =
     (let (i, st') = randomInt 0 (int (length array)) st in (array_get array i, st'))"

definition randomBoolean :: "real \<Rightarrow> nat \<Rightarrow> bool \<times> nat" where
  "randomBoolean probability st = (let (r, st') = random st in (r < probability, st'))"

section \<open>CrossyGame.tsx: rows, moves and frames\<close>

text \<open>
  The game draws from \<^verbatim>\<open>Math.random()\<close>. The outcomes that \<^verbatim>\<open>Math.random()\<close> returns, in the
  order of the calls, are a list of reals; a call takes the head. \<open>None\<close> is a list that has
  run out, or a head outside \<open>[0, 1)\<close>, which \<^verbatim>\<open>Math.random()\<close> never returns. Meshes, camera
  and lights are left out; of the chicken only \<^verbatim>\<open>position.x\<close>, which the hit test reads, is
  kept.
\<close>

definition zoom :: real where "zoom = 2"
definition chickenSize :: real where "chickenSize = 15"
definition positionWidth :: real where "positionWidth = 42"
definition columns :: int where "columns = 17"
definition boardWidth :: real where "boardWidth = positionWidth * real_of_int columns"
definition stepTime :: real where "stepTime = 200"
definition laneTypes :: "string list" where "laneTypes = [''car'', ''truck'', ''forest'']"
definition laneSpeeds :: "real list" where "laneSpeeds = [2, 5 / 2, 3]"
definition vehicleColors :: "nat list" where "vehicleColors = [0xa52523, 0xbdb638, 0x78b14b]"
definition treeHeights :: "real list" where "treeHeights = [20, 45, 60]"

fun Math_random :: "real list \<Rightarrow> (real \<times> real list) option" where
  "Math_random [] = None"
| "Math_random (d # ds) = (if 0 \<le> d \<and> d < 1 then Some (d, ds) else None)"

text \<open>\<^verbatim>\<open>Car()\<close>, \<^verbatim>\<open>Truck()\<close> and \<^verbatim>\<open>Tree()\<close> each make one draw, for the colour or the height.\<close>

definition Car :: "real list \<Rightarrow> (nat \<times> real list) option" where
  "Car ds = do { (r, ds') \<leftarrow> Math_random ds;
                 Some (vehicleColors ! nat \<lfloor>r * real (length vehicleColors)\<rfloor>, ds') }"

definition Truck :: "real list \<Rightarrow> (nat \<times> real list) option" where
  "Truck ds = do { (r, ds') \<leftarrow> Math_random ds;
                   Some (vehicleColors ! nat \<lfloor>r * real (length vehicleColors)\<rfloor>, ds') }"

definition Tree :: "real list \<Rightarrow> (real \<times> real list) option" where
  "Tree ds = do { (r, ds') \<leftarrow> Math_random ds;
                  Some (treeHeights ! nat \<lfloor>r * real (length treeHeights)\<rfloor>, ds') }"

text \<open>
  A row. \<open>occupiedPositions\<close> is set on a forest row only, \<open>direction\<close>, \<open>vehicles\<close> (the
  \<^verbatim>\<open>position.x\<close> of each vehicle) and \<open>speed\<close> on a car or truck row only; on the other rows the
  property is absent and the field holds \<open>{}\<close>, \<open>False\<close>, \<open>[]\<close> or \<open>0\<close>. The code reads each of them
  only behind a test of \<open>type\<close>.
\<close>

record lane =
  index :: int
  type :: string
  occupiedPositions :: "int set"
  direction :: bool
  vehicles :: "real list"
  speed :: real

text \<open>The loop \<^verbatim>\<open>do { position = Math.floor(Math.random() * columns) } while (occupied)\<close> of a
  forest row.\<close>

fun tree_position :: "int set \<Rightarrow> real list \<Rightarrow> (int \<times> real list) option" where
  "tree_position occ [] = None"
| "tree_position occ (d # ds) =
     (if 0 \<le> d \<and> d < 1 then
        (let position = \<lfloor>d * real_of_int columns\<rfloor>
         in if position \<in> occ then tree_position occ ds else Some (position, ds))
      else None)"

text \<open>\<^verbatim>\<open>[1, 2, 3, 4].map(...)\<close>: a tree, then its column.\<close>

fun plant_trees :: "nat \<Rightarrow> int set \<Rightarrow> real list \<Rightarrow> (int set \<times> real list) option" where
  "plant_trees 0 occ ds = Some (occ, ds)"
| "plant_trees (Suc n) occ ds =
     do { (height, ds1) \<leftarrow> Tree ds;
          (position, ds2) \<leftarrow> tree_position occ ds1;
          plant_trees n (insert position occ) ds2 }"

text \<open>The loop \<^verbatim>\<open>do { position = Math.floor((Math.random() * columns) / divider) } while
  (occupied)\<close> of a car or truck row.\<close>

fun vehicle_position :: "real \<Rightarrow> int set \<Rightarrow> real list \<Rightarrow> (int \<times> real list) option" where
  "vehicle_position divider occ [] = None"
| "vehicle_position divider occ (d # ds) =
     (if 0 \<le> d \<and> d < 1 then
        (let position = \<lfloor>d * real_of_int columns / divider\<rfloor>
         in if position \<in> occ then vehicle_position divider occ ds else Some (position, ds))
      else None)"

text \<open>\<^verbatim>\<open>Array(vehicleCount).fill(0).map(...)\<close>: a vehicle, then its slot and its
  \<^verbatim>\<open>position.x\<close>.\<close>

fun place_vehicles :: "nat \<Rightarrow> string \<Rightarrow> real \<Rightarrow> int set \<Rightarrow> real list \<Rightarrow> (real list \<times> real list) option" where
  "place_vehicles 0 ty divider occ ds = Some ([], ds)"
| "place_vehicles (Suc n) ty divider occ ds =
     do { (color, ds1) \<leftarrow> (if ty = ''car'' then Car ds else Truck ds);
          (position, ds2) \<leftarrow> vehicle_position divider occ ds1;
          (vs, ds3) \<leftarrow> place_vehicles n ty divider (insert position occ) ds2;
          Some (((real_of_int position * positionWidth * divider + positionWidth / 2) * zoom
                  - (boardWidth * zoom) / 2) # vs, ds3) }"

text \<open>\<^verbatim>\<open>Lane(index)\<close>: the row and the outcomes left.\<close>

definition Lane :: "int \<Rightarrow> real list \<Rightarrow> (lane \<times> real list) option" where
  "Lane i ds =
     (if i \<le> 0 then
        Some (\<lparr>index = i, type = ''field'', occupiedPositions = {}, direction = False,
                vehicles = [], speed = 0\<rparr>, ds)
      else
        do { (r, ds1) \<leftarrow> Math_random ds;
             let ty = laneTypes ! nat \<lfloor>r * real (length laneTypes)\<rfloor>;
             if ty = ''forest'' then
               do { (occ, ds2) \<leftarrow> plant_trees 4 {} ds1;
                    Some (\<lparr>index = i, type = ty, occupiedPositions = occ, direction = False,
                            vehicles = [], speed = 0\<rparr>, ds2) }
             else
               do { (r2, ds2) \<leftarrow> Math_random ds1;
                    let vehicleCount = (if ty = ''car'' then 3 else 2);
                    let divider = (if ty = ''car'' then 2 else 3);
                    (vs, ds3) \<leftarrow> place_vehicles vehicleCount ty divider {} ds2;
                    (r3, ds4) \<leftarrow> Math_random ds3;
                    Some (\<lparr>index = i, type = ty, occupiedPositions = {}, direction = (r2 \<ge> 1 / 2),
                            vehicles = vs,
                            speed = laneSpeeds ! nat \<lfloor>r3 * real (length laneSpeeds)\<rfloor>\<rparr>, ds4) } })"

text \<open>\<^verbatim>\<open>[-9, ..., 9].map(Lane)\<close>, the rows made in this order.\<close>

fun map_Lane :: "int list \<Rightarrow> real list \<Rightarrow> (lane list \<times> real list) option" where
  "map_Lane [] ds = Some ([], ds)"
| "map_Lane (i # is) ds =
     do { (l, ds1) \<leftarrow> Lane i ds;
          (ls, ds2) \<leftarrow> map_Lane is ds1;
          Some (l # ls, ds2) }"

definition generateLanes :: "real list \<Rightarrow> (lane list \<times> real list) option" where
  "generateLanes ds =
     do { (ls, ds') \<leftarrow> map_Lane [-9, -8, -7, -6, -5, -4, -3, -2, -1, 0, 1, 2, 3, 4, 5, 6, 7, 8, 9] ds;
          Some (filter (\<lambda>l. index l \<ge> 0) ls, ds') }"

text \<open>The variables of the game; \<open>random_draws\<close> holds the outcomes that \<^verbatim>\<open>Math.random()\<close> will
  return next.\<close>

record game =
  lanes :: "lane list"
  currentLane :: int
  currentColumn :: int
  previousTimestamp :: "real option"
  startMoving :: bool
  moves :: "string list"
  stepStartTimestamp :: "real option"
  gameOver :: bool
  chicken_x :: real
  random_draws :: "real list"

datatype game_error = TypeError | NoMoreDraws

datatype callback = onScoreChange int | onGameOver int

text \<open>A \<^verbatim>\<open>number | null\<close> in a condition: \<^verbatim>\<open>null\<close> and \<open>0\<close> are falsy.\<close>

definition truthy :: "real option \<Rightarrow> bool" where
  "truthy x = (case x of None \<Rightarrow> False | Some t \<Rightarrow> t \<noteq> 0)"

definition addLane :: "game \<Rightarrow> game option" where
  "addLane g =
     do { (l, ds) \<leftarrow> Lane (int (length (lanes g))) (random_draws g);
          Some (g\<lparr>lanes := lanes g @ [l], random_draws := ds\<rparr>) }"

definition initializeValues :: "real list \<Rightarrow> game option" where
  "initializeValues ds =
     do { (ls, ds') \<leftarrow> generateLanes ds;
          Some \<lparr>lanes = ls, currentLane = 0, currentColumn = \<lfloor>real_of_int columns / 2\<rfloor>,
                previousTimestamp = None, startMoving = False, moves = [],
                stepStartTimestamp = None, gameOver = False, chicken_x = 0,
                random_draws = ds'\<rparr> }"

text \<open>The function of \<^verbatim>\<open>moves.reduce\<close> in \<^verbatim>\<open>move\<close>, on the pair of lane and column.\<close>

definition queued :: "int \<times> int \<Rightarrow> string \<Rightarrow> int \<times> int" where
  "queued position mv =
     (if mv = ''forward'' then (fst position + 1, snd position)
      else if mv = ''backward'' then (fst position - 1, snd position)
      else if mv = ''left'' then (fst position, snd position - 1)
      else if mv = ''right'' then (fst position, snd position + 1)
      else position)"

definition finalPositions :: "game \<Rightarrow> int \<times> int" where
  "finalPositions g = foldl queued (currentLane g, currentColumn g) (moves g)"

text \<open>\<^verbatim>\<open>lanes[i].type === "forest" && lanes[i].occupiedPositions.has(c)\<close>: reading \<^verbatim>\<open>type\<close> of a
  row that the array does not have throws a TypeError.\<close>

definition blocked :: "lane list \<Rightarrow> int \<Rightarrow> int \<Rightarrow> game_error + bool" where
  "blocked ls i c =
     (case array_get ls i of
        None \<Rightarrow> Inl TypeError
      | Some l \<Rightarrow> Inr (type l = ''forest'' \<and> c \<in> occupiedPositions l))"

text \<open>\<^verbatim>\<open>if (!stepStartTimestamp) startMoving = true\<close>.\<close>

definition begin_step :: "game \<Rightarrow> game" where
  "begin_step g = (if \<not> truthy (stepStartTimestamp g) then g\<lparr>startMoving := True\<rparr> else g)"

definition push_move :: "string \<Rightarrow> game \<Rightarrow> game" where
  "push_move dir g = g\<lparr>moves := moves g @ [dir]\<rparr>"

definition move :: "string \<Rightarrow> game \<Rightarrow> game_error + game" where
  "move dir g =
     (if gameOver g then Inr g
      else
        let fp = finalPositions g in
        if dir = ''forward'' then
          (case blocked (lanes g) (fst fp + 1) (snd fp) of
             Inl e \<Rightarrow> Inl e
           | Inr b \<Rightarrow>
               if b then Inr g
               else (case addLane (begin_step g) of
                       None \<Rightarrow> Inl NoMoreDraws
                     | Some g' \<Rightarrow> Inr (push_move dir g')))
        else if dir = ''backward'' then
          (if fst fp = 0 then Inr g
           else case blocked (lanes g) (fst fp - 1) (snd fp) of
                  Inl e \<Rightarrow> Inl e
                | Inr b \<Rightarrow> if b then Inr g else Inr (push_move dir (begin_step g)))
        else if dir = ''left'' then
          (if snd fp = 0 then Inr g
           else case blocked (lanes g) (fst fp) (snd fp - 1) of
                  Inl e \<Rightarrow> Inl e
                | Inr b \<Rightarrow> if b then Inr g else Inr (push_move dir (begin_step g)))
        else if dir = ''right'' then
          (if snd fp = columns - 1 then Inr g
           else case blocked (lanes g) (fst fp) (snd fp + 1) of
                  Inl e \<Rightarrow> Inl e
                | Inr b \<Rightarrow> if b then Inr g else Inr (push_move dir (begin_step g)))
        else Inr (push_move dir g))"

text \<open>The update of one vehicle in a frame: \<open>dir\<close> is the direction of its row.\<close>

definition aBitBeforeTheBeginingOfLane :: real where
  "aBitBeforeTheBeginingOfLane = (- boardWidth * zoom) / 2 - positionWidth * 2 * zoom"

definition aBitAfterTheEndOFLane :: real where
  "aBitAfterTheEndOFLane = (boardWidth * zoom) / 2 + positionWidth * 2 * zoom"

definition advance_vehicle :: "bool \<Rightarrow> real \<Rightarrow> real \<Rightarrow> real \<Rightarrow> real" where
  "advance_vehicle dir spd delta x =
     (if dir then
        (if x < aBitBeforeTheBeginingOfLane then aBitAfterTheEndOFLane
         else x - (spd / 16) * delta)
      else
        (if x > aBitAfterTheEndOFLane then aBitBeforeTheBeginingOfLane
         else x + (spd / 16) * delta))"

definition advance_lane :: "real \<Rightarrow> lane \<Rightarrow> lane" where
  "advance_lane delta l =
     (if type l = ''car'' \<or> type l = ''truck''
      then l\<lparr>vehicles := map (advance_vehicle (direction l) (speed l) delta) (vehicles l)\<rparr>
      else l)"

text \<open>
  The block \<^verbatim>\<open>if (stepStartTimestamp) { ... }\<close> of \<^verbatim>\<open>animate\<close>, entered with the start \<open>t0\<close> of the
  step: the first \<^verbatim>\<open>switch\<close> moves the chicken (only \<^verbatim>\<open>position.x\<close> is kept), the second one,
  once the step has lasted longer than \<open>stepTime\<close>, changes the lane or the column, reports
  the score and takes the move off the queue.
\<close>

definition chicken_position_x :: "int \<Rightarrow> real" where
  "chicken_position_x c =
     (real_of_int c * positionWidth + positionWidth / 2) * zoom - (boardWidth * zoom) / 2"

definition step_frame :: "real \<Rightarrow> real \<Rightarrow> game \<Rightarrow> game \<times> callback list" where
  "step_frame ts t0 g =
     (let moveDeltaTime = ts - t0;
          moveDeltaDistance = min (moveDeltaTime / stepTime) 1 * positionWidth * zoom;
          g1 = (case moves g of
                  [] \<Rightarrow> g
                | m # ms \<Rightarrow>
                    if m = ''left''
                    then g\<lparr>chicken_x := chicken_position_x (currentColumn g) - moveDeltaDistance\<rparr>
                    else if m = ''right''
                    then g\<lparr>chicken_x := chicken_position_x (currentColumn g) + moveDeltaDistance\<rparr>
                    else g)
      in if moveDeltaTime > stepTime then
           (let (g2, out) =
                  (case moves g1 of
                     [] \<Rightarrow> (g1, [])
                   | m # ms \<Rightarrow>
                       if m = ''forward''
                       then (g1\<lparr>currentLane := currentLane g1 + 1\<rparr>,
                             [onScoreChange (currentLane g1 + 1)])
                       else if m = ''backward''
                       then (g1\<lparr>currentLane := currentLane g1 - 1\<rparr>,
                             [onScoreChange (currentLane g1 - 1)])
                       else if m = ''left'' then (g1\<lparr>currentColumn := currentColumn g1 - 1\<rparr>, [])
                       else if m = ''right'' then (g1\<lparr>currentColumn := currentColumn g1 + 1\<rparr>, [])
                       else (g1, []));
                g3 = g2\<lparr>moves := tl (moves g2)\<rparr>
            in (g3\<lparr>stepStartTimestamp := (if moves g3 = [] then None else Some ts)\<rparr>, out))
         else (g1, []))"

text \<open>The hit test: \<^verbatim>\<open>lanes[currentLane]?.type\<close> is \<^verbatim>\<open>undefined\<close> when there is no such row;
  every vehicle that overlaps the chicken sets \<open>gameOver\<close> and calls \<^verbatim>\<open>onGameOver\<close>.\<close>

definition vehicleLength :: "string \<Rightarrow> real" where
  "vehicleLength ty = (if ty = ''car'' then 60 else 105)"

definition hits :: "game \<Rightarrow> lane \<Rightarrow> real \<Rightarrow> bool" where
  "hits g l x =
     (let chickenMinX = chicken_x g - (chickenSize * zoom) / 2;
          chickenMaxX = chicken_x g + (chickenSize * zoom) / 2;
          carMinX = x - (vehicleLength (type l) * zoom) / 2;
          carMaxX = x + (vehicleLength (type l) * zoom) / 2
      in chickenMaxX > carMinX \<and> chickenMinX < carMaxX)"

definition hit_test :: "game \<Rightarrow> game \<times> callback list" where
  "hit_test g =
     (case array_get (lanes g) (currentLane g) of
        None \<Rightarrow> (g, [])
      | Some l \<Rightarrow>
          if type l = ''car'' \<or> type l = ''truck'' then
            (let hs = filter (hits g l) (vehicles l)
             in (if hs = [] then g else g\<lparr>gameOver := True\<rparr>,
                 map (\<lambda>v. onGameOver (currentLane g)) hs))
          else (g, []))"

text \<open>\<^verbatim>\<open>animate(timestamp)\<close>, here with the timestamp \<open>ts\<close>: the game after the frame and the calls of the two callbacks, in
  order. Asking for the next frame (\<^verbatim>\<open>requestAnimationFrame\<close>) and rendering are left out.\<close>

definition animate :: "real \<Rightarrow> game \<Rightarrow> game \<times> callback list" where
  "animate ts g =
     (let prev = (if \<not> truthy (previousTimestamp g) then ts
                  else (case previousTimestamp g of Some p \<Rightarrow> p | None \<Rightarrow> ts));
          delta = ts - prev;
          g1 = g\<lparr>previousTimestamp := Some ts,
                 lanes := map (advance_lane delta) (lanes g)\<rparr>;
          g2 = (if startMoving g1
                then g1\<lparr>stepStartTimestamp := Some ts, startMoving := False\<rparr> else g1);
          (g3, out) = (case stepStartTimestamp g2 of
                         None \<Rightarrow> (g2, [])
                       | Some t0 \<Rightarrow> if t0 \<noteq> 0 then step_frame ts t0 g2 else (g2, []));
          (g4, out') = hit_test g3
      in (g4, out @ out'))"

text \<open>A session: the rows of \<^verbatim>\<open>initializeValues\<close>, then calls of \<^verbatim>\<open>move\<close> (a key pressed) and of
  \<^verbatim>\<open>animate\<close> (a frame), in any order.\<close>

datatype call = Move string | Frame real

fun play :: "call list \<Rightarrow> game \<Rightarrow> game_error + game \<times> callback list" where
  "play [] g = Inr (g, [])"
| "play (Move d # cs) g = (case move d g of Inl e \<Rightarrow> Inl e | Inr g' \<Rightarrow> play cs g')"
| "play (Frame t # cs) g =
     (let (g', out) = animate t g
      in case play cs g' of Inl e \<Rightarrow> Inl e | Inr (g'', out') \<Rightarrow> Inr (g'', out @ out'))"

definition session :: "real list \<Rightarrow> call list \<Rightarrow> game_error + game \<times> callback list" where
  "session ds cs = (case initializeValues ds of None \<Rightarrow> Inl NoMoreDraws | Some g \<Rightarrow> play cs g)"

text \<open>The blocks of \<^verbatim>\<open>animate\<close> before the hit test, each as a function of its own: the
  clock and the vehicles, the start of a step, the step in progress. \<open>animate\<close> is these three
  followed by \<open>hit_test\<close> (lemma \<open>animate_split\<close>).\<close>

definition advance_time :: "real \<Rightarrow> game \<Rightarrow> game" where
  "advance_time ts g =
     g\<lparr>previousTimestamp := Some ts,
       lanes := map (advance_lane (ts - (if \<not> truthy (previousTimestamp g) then ts
                  else (case previousTimestamp g of Some p \<Rightarrow> p | None \<Rightarrow> ts)))) (lanes g)\<rparr>"

definition start_step :: "real \<Rightarrow> game \<Rightarrow> game" where
  "start_step ts g =
     (if startMoving g then g\<lparr>stepStartTimestamp := Some ts, startMoving := False\<rparr> else g)"

definition run_step :: "real \<Rightarrow> game \<Rightarrow> game \<times> callback list" where
  "run_step ts g =
     (case stepStartTimestamp g of
        None \<Rightarrow> (g, [])
      | Some t0 \<Rightarrow> if t0 \<noteq> 0 then step_frame ts t0 g else (g, []))"

definition frame_step :: "real \<Rightarrow> game \<Rightarrow> game \<times> callback list" where
  "frame_step ts g = run_step ts (start_step ts (advance_time ts g))"

text \<open>The scores that a list of calls reports through \<^verbatim>\<open>onScoreChange\<close>.\<close>

fun scoreChanges :: "callback list \<Rightarrow> int list" where
  "scoreChanges [] = []"
| "scoreChanges (onScoreChange n # out) = n # scoreChanges out"
| "scoreChanges (onGameOver n # out) = scoreChanges out"

text \<open>Example states: a field row, a car row, and a game standing at a lane and a column with
  a queue of moves, the step begun at \<open>t0\<close>.\<close>

definition field_row :: "int \<Rightarrow> lane" where
  "field_row i = \<lparr>index = i, type = ''field'', occupiedPositions = {}, direction = False,
                   vehicles = [], speed = 0\<rparr>"

definition car_row :: "int \<Rightarrow> bool \<Rightarrow> real list \<Rightarrow> real \<Rightarrow> lane" where
  "car_row i dir vs spd = \<lparr>index = i, type = ''car'', occupiedPositions = {}, direction = dir,
                   vehicles = vs, speed = spd\<rparr>"

definition game_at :: "lane list \<Rightarrow> int \<Rightarrow> int \<Rightarrow> string list \<Rightarrow> real option \<Rightarrow> game" where
  "game_at ls l c ms t0 =
     \<lparr>lanes = ls, currentLane = l, currentColumn = c, previousTimestamp = t0,
       startMoving = False, moves = ms, stepStartTimestamp = t0, gameOver = False,
       chicken_x = chicken_position_x c, random_draws = []\<rparr>"

text \<open>
  \<open>consumes f\<close>: whenever \<open>f\<close> succeeds it has taken a prefix of the outcomes, returns the rest,
  and succeeds with the same result on every list that starts with that prefix.
\<close>

definition consumes :: "(real list \<Rightarrow> ('a \<times> real list) option) \<Rightarrow> bool" where
  "consumes f =
     (\<forall>ds a rest. f ds = Some (a, rest) \<longrightarrow>
        (\<exists>used. ds = used @ rest \<and> (\<forall>ds'. f (used @ ds') = Some (a, ds'))))"

text \<open>Example outcomes of \<^verbatim>\<open>Math.random()\<close>: nine that make a car row with the cars in the slots
  \<open>0\<close>, \<open>2\<close> and \<open>4\<close>, nine that make a forest row with trees in the columns \<open>0\<close>, \<open>4\<close>, \<open>8\<close> and
  \<open>12\<close>; the outcomes of a session whose rows are all car rows, and of one whose first drawn
  row is the forest row; the rows that \<^verbatim>\<open>initializeValues\<close> makes of them.\<close>

definition forest_row :: "int \<Rightarrow> int set \<Rightarrow> lane" where
  "forest_row i occ = \<lparr>index = i, type = ''forest'', occupiedPositions = occ, direction = False,
                   vehicles = [], speed = 0\<rparr>"

definition car_draws :: "real list" where
  "car_draws = [0, 3 / 4, 0, 0, 0, 1 / 4, 0, 1 / 2, 1 / 2]"

definition forest_draws :: "real list" where
  "forest_draws = [3 / 4, 0, 0, 0, 1 / 4, 0, 1 / 2, 0, 3 / 4]"

definition draws_A :: "real list \<Rightarrow> real list" where
  "draws_A rest = car_draws @ car_draws @ car_draws @ car_draws @ car_draws @ car_draws @
     car_draws @ car_draws @ car_draws @ car_draws @ rest"

definition draws_B :: "real list \<Rightarrow> real list" where
  "draws_B rest = forest_draws @ car_draws @ car_draws @ car_draws @ car_draws @ car_draws @
     car_draws @ car_draws @ car_draws @ car_draws @ rest"

definition rows_A :: "lane list" where
  "rows_A = field_row 0 # map (\<lambda>i. car_row i True [-672, -336, 0] (5 / 2)) [1, 2, 3, 4, 5, 6, 7, 8, 9]"

definition rows_B :: "lane list" where
  "rows_B = field_row 0 # forest_row 1 {0, 4, 8, 12} #
     map (\<lambda>i. car_row i True [-672, -336, 0] (5 / 2)) [2, 3, 4, 5, 6, 7, 8, 9]"

definition game_start :: "lane list \<Rightarrow> real list \<Rightarrow> game" where
  "game_start ls ds =
     \<lparr>lanes = ls, currentLane = 0, currentColumn = 8, previousTimestamp = None,
       startMoving = False, moves = [], stepStartTimestamp = None, gameOver = False,
       chicken_x = 0, random_draws = ds\<rparr>"

section \<open>Properties of the recorder\<close>

lemma recordInputs_idle: "\<not> recording r \<Longrightarrow> recordInputs cs r = r"
  by (induction cs arbitrary: r) (auto simp: recordInput_def)

lemma recordInputs_recording:
  "recording r \<Longrightarrow>
   recordInputs cs r =
     r\<lparr>r_inputs := r_inputs r @
        map (\<lambda>(a, t). \<lparr>timestamp = Math_round (t - gameStartTimestamp r), action = a\<rparr>) cs\<rparr>"
proof (induction cs arbitrary: r)
  case Nil
  then show ?case by simp
next
  case (Cons c cs)
  obtain a t where c: "c = (a, t)" by (cases c)
  let ?r1 = "recordInput a t r"
  have r1: "?r1 = r\<lparr>r_inputs := r_inputs r @
      [\<lparr>timestamp = Math_round (t - gameStartTimestamp r), action = a\<rparr>]\<rparr>"
    using Cons.prems by (simp add: recordInput_def)
  then have "recording ?r1" using Cons.prems by simp
  from Cons.IH [OF this] show ?case
    by (simp add: c r1)
qed

lemma Math_round_mono: "x \<le> y \<Longrightarrow> Math_round x \<le> Math_round y"
  by (simp add: Math_round_def floor_mono)

lemma None_neq: "(None \<noteq> x) = (\<exists>y. x = Some y)"
  by (cases x) auto

lemma inputs_ordered_events:
  "None \<notin> set es \<Longrightarrow>
   inputs_ordered es =
     Inr (successively (\<lambda>x y. \<not> js_less (ev_timestamp (the y)) (ev_timestamp (the x))) es)"
  by (induction es rule: inputs_ordered.induct) (auto simp: None_neq)

lemma actions_valid_events:
  "None \<notin> set es \<Longrightarrow>
   actions_valid es = Inr (\<forall>x \<in> set es. ev_action (the x) \<in> set validActions)"
  by (induction es) (auto simp: None_neq)

lemma actions_valid_no_null: "actions_valid es = Inr True \<Longrightarrow> None \<notin> set es"
  by (induction es) (auto split: option.splits if_splits)

lemma validate_events:
  "None \<notin> set (events a) \<Longrightarrow>
   validate a =
     Inr (truthy_field (a_seed a) \<and> a_inputs a \<noteq> None \<and> truthy_field (a_startTime a) \<and>
          (\<forall>i. Suc i < length (events a) \<longrightarrow>
             \<not> js_less (ev_timestamp (the (events a ! Suc i))) (ev_timestamp (the (events a ! i)))) \<and>
          (\<forall>x \<in> set (events a). ev_action (the x) \<in> set validActions))"
  by (cases "a_inputs a")
     (auto simp: validate_def events_def inputs_ordered_events actions_valid_events
        successively_conv_nth)

lemma validate_no_null: "validate a = Inr True \<Longrightarrow> None \<notin> set (events a)"
  by (cases "a_inputs a")
     (auto simp: validate_def events_def dest: actions_valid_no_null
        split: if_splits sum.splits)

lemma js_less_trans:
  "\<not> js_less y x \<Longrightarrow> \<not> js_less z y \<Longrightarrow> x \<noteq> NaN \<Longrightarrow> y \<noteq> NaN \<Longrightarrow> z \<noteq> NaN \<Longrightarrow> \<not> js_less z x"
  by (cases x; cases y; cases z) auto

lemma transp_js_le: "transp js_le"
  unfolding transp_def js_le_def using js_less_trans by blast

lemma sorted_js_le:
  assumes "\<forall>i. Suc i < length ns \<longrightarrow> \<not> js_less (ns ! Suc i) (ns ! i)" and "NaN \<notin> set ns"
  shows "sorted_wrt js_le ns"
proof -
  have "js_le (ns ! i) (ns ! Suc i)" if "Suc i < length ns" for i
  proof -
    from that have "ns ! i \<in> set ns" "ns ! Suc i \<in> set ns" by simp_all
    with assms(2) have "ns ! i \<noteq> NaN" "ns ! Suc i \<noteq> NaN" by metis+
    with assms(1) that show ?thesis by (simp add: js_le_def)
  qed
  then show ?thesis by (simp add: sorted_wrt_iff_nth_Suc_transp [OF transp_js_le])
qed

section \<open>The claims about the recorder\<close>

text \<open>C3, as stated, fails at the supplied seed \<open>0\<close>: \<^verbatim>\<open>start(0)\<close> with the clock at \<open>1000\<close>
  stores the seed \<open>1000\<close>, and the recording returned by \<^verbatim>\<open>stop\<close> carries \<open>1000\<close>, not \<open>0\<close>.\<close>

theorem start_zero_seed_counterexample:
  "stop 5 2000 (start (Some 0) 1000 1001 0 new_GameInputRecorder) =
     Inr (\<lparr>seed = 1000, startTime = 1001, inputs = [], finalScore = 5, duration = 999,
            version = ''1.0.0''\<rparr>,
          \<lparr>recording = False, r_seed = 1000, r_startTime = 1001, gameStartTimestamp = 0,
            r_inputs = []\<rparr>)"
  by (simp add: stop_def start_def new_GameInputRecorder_def recorder_version_def)

text \<open>C3 (amended): after \<^verbatim>\<open>start(seed)\<close> and any run of \<^verbatim>\<open>recordInput\<close> calls, \<^verbatim>\<open>stop\<close> returns a
  recording whose seed is the supplied seed when one was supplied and it is not \<open>0\<close>; when no seed
  was supplied, or the supplied seed is \<open>0\<close>, it is the sample of \<^verbatim>\<open>Date.now()\<close>.\<close>

theorem start_seed_kept:
  "\<exists>a r'. stop fs nowStop (recordInputs cs (start sd nowSeed nowStart perfNow r)) = Inr (a, r') \<and>
     seed a = (if sd = None \<or> sd = Some 0 then nowSeed else the sd)"
proof -
  let ?r = "start sd nowSeed nowStart perfNow r"
  have rec: "recording ?r" by (simp add: start_def)
  have "r_seed ?r = (if sd = None \<or> sd = Some 0 then nowSeed else the sd)"
    by (cases sd) (simp_all add: start_def)
  then show ?thesis
    by (simp add: recordInputs_recording [OF rec] stop_def rec)
qed

text \<open>The amended C3 at the seed \<open>42\<close>.\<close>

theorem start_seed_kept_witness:
  "\<exists>a r'. stop 3 2000 (recordInputs [(''forward'', 12.4), (''left'', 250)]
       (start (Some 42) 1000 1001 10 new_GameInputRecorder)) = Inr (a, r') \<and> seed a = 42"
  using start_seed_kept [of 3 2000 "[(''forward'', 12.4), (''left'', 250)]" "Some 42" 1000 1001 10
      new_GameInputRecorder]
  by simp

text \<open>C4: \<^verbatim>\<open>stop(finalScore)\<close> fails exactly when the recorder is not recording, and then with the
  error of the inactive recorder; when it is recording it returns the recorder's seed, start time and
  inputs with the given final score and leaves the recorder idle; after \<^verbatim>\<open>start\<close> (from any
  earlier state \<open>r0\<close>) and a run \<open>cs\<close> of \<^verbatim>\<open>recordInput\<close> calls the inputs are exactly the events
  of \<open>cs\<close>, in order, each stamped with its rounded offset from the start.\<close>

theorem stop_contract:
  "((\<exists>e. stop fs nowStop r = Inl e) \<longleftrightarrow> \<not> recording r) \<and>
   (\<forall>e. stop fs nowStop r = Inl e \<longrightarrow> e = RecorderNotActive) \<and>
   (recording r \<longrightarrow>
      stop fs nowStop r =
        Inr (\<lparr>seed = r_seed r, startTime = r_startTime r, inputs = r_inputs r, finalScore = fs,
               duration = nowStop - r_startTime r, version = ''1.0.0''\<rparr>,
             r\<lparr>recording := False\<rparr>)) \<and>
   (let r1 = start sd nowSeed nowStart perfNow r0 in
    stop fs nowStop (recordInputs cs r1) =
      Inr (\<lparr>seed = r_seed r1, startTime = nowStart,
             inputs = map (\<lambda>(a, t). \<lparr>timestamp = Math_round (t - perfNow), action = a\<rparr>) cs,
             finalScore = fs, duration = nowStop - nowStart, version = ''1.0.0''\<rparr>,
           \<lparr>recording = False, r_seed = r_seed r1, r_startTime = nowStart,
             gameStartTimestamp = perfNow,
             r_inputs = map (\<lambda>(a, t). \<lparr>timestamp = Math_round (t - perfNow), action = a\<rparr>) cs\<rparr>))"
proof -
  let ?r1 = "start sd nowSeed nowStart perfNow r0"
  have rec: "recording ?r1" by (simp add: start_def)
  have a: "(\<exists>e. stop fs nowStop r = Inl e) \<longleftrightarrow> \<not> recording r"
    by (simp add: stop_def)
  have b: "\<forall>e. stop fs nowStop r = Inl e \<longrightarrow> e = RecorderNotActive"
    by (auto simp: stop_def split: if_splits)
  have c: "recording r \<longrightarrow>
      stop fs nowStop r =
        Inr (\<lparr>seed = r_seed r, startTime = r_startTime r, inputs = r_inputs r, finalScore = fs,
               duration = nowStop - r_startTime r, version = ''1.0.0''\<rparr>,
             r\<lparr>recording := False\<rparr>)"
    by (simp add: stop_def recorder_version_def)
  have d: "stop fs nowStop (recordInputs cs ?r1) =
      Inr (\<lparr>seed = r_seed ?r1, startTime = nowStart,
             inputs = map (\<lambda>(a, t). \<lparr>timestamp = Math_round (t - perfNow), action = a\<rparr>) cs,
             finalScore = fs, duration = nowStop - nowStart, version = ''1.0.0''\<rparr>,
           \<lparr>recording = False, r_seed = r_seed ?r1, r_startTime = nowStart,
             gameStartTimestamp = perfNow,
             r_inputs = map (\<lambda>(a, t). \<lparr>timestamp = Math_round (t - perfNow), action = a\<rparr>) cs\<rparr>)"
    by (simp add: recordInputs_recording [OF rec] stop_def recorder_version_def)
       (simp add: start_def)
  from a b c d show ?thesis by (simp add: Let_def)
qed

text \<open>C4 on an idle recorder and on a session of two recorded inputs.\<close>

theorem stop_contract_witness:
  "stop 7 5000 new_GameInputRecorder = Inl RecorderNotActive \<and>
   stop 7 5000 (recordInputs [(''forward'', 110.6), (''right'', 320.5)]
       (start (Some 42) 1000 1001 100 new_GameInputRecorder)) =
     Inr (\<lparr>seed = 42, startTime = 1001,
            inputs = [\<lparr>timestamp = 11, action = ''forward''\<rparr>, \<lparr>timestamp = 221, action = ''right''\<rparr>],
            finalScore = 7, duration = 3999, version = ''1.0.0''\<rparr>,
          \<lparr>recording = False, r_seed = 42, r_startTime = 1001, gameStartTimestamp = 100,
            r_inputs = [\<lparr>timestamp = 11, action = ''forward''\<rparr>, \<lparr>timestamp = 221, action = ''right''\<rparr>]\<rparr>)"
proof -
  have idle: "\<not> recording new_GameInputRecorder" by (simp add: new_GameInputRecorder_def)
  have "\<exists>e. stop 7 5000 new_GameInputRecorder = Inl e"
    using stop_contract [of 7 5000 new_GameInputRecorder] idle by blast
  then have 1: "stop 7 5000 new_GameInputRecorder = Inl RecorderNotActive"
    using stop_contract [of 7 5000 new_GameInputRecorder] by blast
  have 2: "stop 7 5000 (recordInputs [(''forward'', 110.6), (''right'', 320.5)]
       (start (Some 42) 1000 1001 100 new_GameInputRecorder)) =
     Inr (\<lparr>seed = 42, startTime = 1001,
            inputs = [\<lparr>timestamp = 11, action = ''forward''\<rparr>, \<lparr>timestamp = 221, action = ''right''\<rparr>],
            finalScore = 7, duration = 3999, version = ''1.0.0''\<rparr>,
          \<lparr>recording = False, r_seed = 42, r_startTime = 1001, gameStartTimestamp = 100,
            r_inputs = [\<lparr>timestamp = 11, action = ''forward''\<rparr>, \<lparr>timestamp = 221, action = ''right''\<rparr>]\<rparr>)"
    using stop_contract [of 7 5000 new_GameInputRecorder "Some 42" 1000 1001 100 new_GameInputRecorder
        "[(''forward'', 110.6), (''right'', 320.5)]"]
    by (simp add: Let_def start_def Math_round_def)
  from 1 2 show ?thesis by simp
qed

text \<open>C5: when the samples of the monotonic clock taken by the \<^verbatim>\<open>recordInput\<close> calls between
  \<^verbatim>\<open>start\<close> and \<^verbatim>\<open>stop\<close> are non-decreasing, the timestamps of the inputs of the recording are
  non-decreasing: \<^verbatim>\<open>Math.round\<close> is monotone.\<close>

theorem recorded_inputs_sorted:
  "sorted (map snd cs) \<Longrightarrow>
   \<exists>a r'. stop fs nowStop (recordInputs cs (start sd nowSeed nowStart perfNow r)) = Inr (a, r') \<and>
     sorted (map timestamp (inputs a))"
proof -
  assume srt: "sorted (map snd cs)"
  let ?r = "start sd nowSeed nowStart perfNow r"
  let ?ev = "\<lambda>(a, t). \<lparr>timestamp = Math_round (t - gameStartTimestamp ?r), action = a\<rparr>"
  have rec: "recording ?r" by (simp add: start_def)
  have emp: "r_inputs ?r = []" by (simp add: start_def)
  have "sorted (map timestamp (map ?ev cs))"
    using srt
  proof (induction cs)
    case Nil
    then show ?case by simp
  next
    case (Cons c cs)
    then show ?case
      by (auto simp: Math_round_mono split: prod.splits)
  qed
  then show ?thesis
    by (simp add: recordInputs_recording [OF rec] stop_def rec emp)
qed

text \<open>C5 on three samples, two of them rounding to the same millisecond.\<close>

theorem recorded_inputs_sorted_witness:
  "sorted (map snd [(''forward'', 10.4 :: real), (''left'', 10.6), (''left'', 300)]) \<and>
   (\<exists>a r'. stop 1 9000 (recordInputs [(''forward'', 10.4), (''left'', 10.6), (''left'', 300)]
        (start None 1000 1001 10 new_GameInputRecorder)) = Inr (a, r') \<and>
     sorted (map timestamp (inputs a)))"
proof -
  have h: "sorted (map snd [(''forward'', 10.4 :: real), (''left'', 10.6), (''left'', 300)])"
    by simp
  from recorded_inputs_sorted [OF h, of 1 9000 None 1000 1001 10 new_GameInputRecorder] h
  show ?thesis by blast
qed

text \<open>C6, as stated, fails on an element that is \<^verbatim>\<open>null\<close> and on a timestamp that is \<^verbatim>\<open>NaN\<close>.
  The recording \<open>null_element\<close> has the unknown action \<^verbatim>\<open>jump\<close> in its first input and \<^verbatim>\<open>null\<close>
  as its second element: \<^verbatim>\<open>validate\<close> does not return false, it throws the TypeError of reading
  a property of \<^verbatim>\<open>null\<close>. The recording \<open>nan_timestamp\<close> has the timestamps \<open>5\<close>, \<^verbatim>\<open>NaN\<close>, \<open>3\<close>,
  which are not sorted, and \<^verbatim>\<open>validate\<close> returns true: no comparison with \<^verbatim>\<open>NaN\<close> holds.\<close>

theorem validate_null_element_counterexample:
  "events null_element = [Some \<lparr>ev_timestamp = Finite 5, ev_action = ''jump''\<rparr>, None] \<and>
   validate null_element = Inl PropertyOfNull \<and>
   map (map_option ev_timestamp) (events nan_timestamp) =
     [Some (Finite 5), Some NaN, Some (Finite 3)] \<and>
   js_less (Finite 3) (Finite (5 :: int)) \<and>
   validate nan_timestamp = Inr True"
  by (simp add: validate_def null_element_def nan_timestamp_def events_def artifact_of_def
        truthy_field_def truthy_number_def example_recording_def validActions_def)

text \<open>C6 (amended): on a recording none of whose inputs is \<^verbatim>\<open>null\<close>, \<^verbatim>\<open>validate\<close> returns a
  value and raises no exception, and it returns false when the timestamp of some input is less
  than that of the input before it, or when the action of some input is none of the four known
  ones. On every recording, \<^verbatim>\<open>validate\<close> returns true only when seed, inputs and start time are
  present (seed and start time truthy), no input is \<^verbatim>\<open>null\<close>, no timestamp is less than the one
  before it (so the timestamps are sorted by \<^verbatim>\<open><=\<close> when none of them is \<^verbatim>\<open>NaN\<close>), and every
  action is one of the four.\<close>

theorem validate_rejects:
  "(None \<notin> set (events a) \<longrightarrow>
      (\<exists>b. validate a = Inr b) \<and>
      ((\<exists>i. Suc i < length (events a) \<and>
            js_less (ev_timestamp (the (events a ! Suc i))) (ev_timestamp (the (events a ! i)))) \<longrightarrow>
         validate a = Inr False) \<and>
      ((\<exists>x \<in> set (events a).
            ev_action (the x) \<notin> {''forward'', ''backward'', ''left'', ''right''}) \<longrightarrow>
         validate a = Inr False)) \<and>
   (validate a = Inr True \<longrightarrow>
      truthy_field (a_seed a) \<and> a_inputs a \<noteq> None \<and> truthy_field (a_startTime a) \<and>
      None \<notin> set (events a) \<and>
      (\<forall>i. Suc i < length (events a) \<longrightarrow>
         \<not> js_less (ev_timestamp (the (events a ! Suc i))) (ev_timestamp (the (events a ! i)))) \<and>
      (NaN \<notin> set (map (\<lambda>x. ev_timestamp (the x)) (events a)) \<longrightarrow>
         sorted_wrt js_le (map (\<lambda>x. ev_timestamp (the x)) (events a))) \<and>
      (\<forall>x \<in> set (events a). ev_action (the x) \<in> {''forward'', ''backward'', ''left'', ''right''}))"
proof -
  let ?ts = "map (\<lambda>x. ev_timestamp (the x)) (events a)"
  have va: "set validActions = {''forward'', ''backward'', ''left'', ''right''}"
    by (simp add: validActions_def)
  have 1: "\<exists>b. validate a = Inr b" if "None \<notin> set (events a)"
    using validate_events [OF that] by blast
  have 2: "validate a = Inr False"
    if "None \<notin> set (events a)"
      "\<exists>i. Suc i < length (events a) \<and>
           js_less (ev_timestamp (the (events a ! Suc i))) (ev_timestamp (the (events a ! i)))"
    using validate_events [OF that(1)] that(2) by auto
  have 3: "validate a = Inr False"
    if "None \<notin> set (events a)"
      "\<exists>x \<in> set (events a). ev_action (the x) \<notin> {''forward'', ''backward'', ''left'', ''right''}"
    using validate_events [OF that(1)] that(2) unfolding va by auto
  have 4: "truthy_field (a_seed a) \<and> a_inputs a \<noteq> None \<and> truthy_field (a_startTime a) \<and>
      None \<notin> set (events a) \<and>
      (\<forall>i. Suc i < length (events a) \<longrightarrow>
         \<not> js_less (ev_timestamp (the (events a ! Suc i))) (ev_timestamp (the (events a ! i)))) \<and>
      (NaN \<notin> set ?ts \<longrightarrow> sorted_wrt js_le ?ts) \<and>
      (\<forall>x \<in> set (events a). ev_action (the x) \<in> {''forward'', ''backward'', ''left'', ''right''})"
    if t: "validate a = Inr True"
  proof -
    from validate_no_null [OF t] have nn: "None \<notin> set (events a)" .
    from validate_events [OF nn] t have
      f: "truthy_field (a_seed a)" "a_inputs a \<noteq> None" "truthy_field (a_startTime a)"
      and o: "\<forall>i. Suc i < length (events a) \<longrightarrow>
         \<not> js_less (ev_timestamp (the (events a ! Suc i))) (ev_timestamp (the (events a ! i)))"
      and k: "\<forall>x \<in> set (events a). ev_action (the x) \<in> set validActions"
      by simp_all
    from o have o': "\<forall>i. Suc i < length ?ts \<longrightarrow> \<not> js_less (?ts ! Suc i) (?ts ! i)"
      by simp
    have s: "NaN \<notin> set ?ts \<longrightarrow> sorted_wrt js_le ?ts"
      using sorted_js_le [OF o'] by blast
    from nn f o k s show ?thesis unfolding va by blast
  qed
  from 1 2 3 4 show ?thesis by blast
qed

text \<open>The amended C6 on a recording out of order, on one with the action \<^verbatim>\<open>jump\<close>, and on the
  example recording, which is valid.\<close>

theorem validate_rejects_witness:
  "validate decreasing_pair = Inr False \<and>
   validate unknown_action = Inr False \<and>
   validate (artifact_of example_recording) = Inr True \<and>
   truthy_field (a_seed (artifact_of example_recording)) \<and>
   sorted_wrt js_le
     (map (\<lambda>x. ev_timestamp (the x)) (events (artifact_of example_recording)))"
proof -
  let ?good = "artifact_of example_recording"
  have e1: "events decreasing_pair =
      [Some \<lparr>ev_timestamp = Finite 250, ev_action = ''forward''\<rparr>,
       Some \<lparr>ev_timestamp = Finite 100, ev_action = ''left''\<rparr>]"
    by (simp add: events_def decreasing_pair_def)
  have e2: "events unknown_action = [Some \<lparr>ev_timestamp = Finite 100, ev_action = ''jump''\<rparr>]"
    by (simp add: events_def unknown_action_def)
  have e3: "events ?good =
      [Some \<lparr>ev_timestamp = Finite 0, ev_action = ''forward''\<rparr>,
       Some \<lparr>ev_timestamp = Finite 250, ev_action = ''left''\<rparr>]"
    by (simp add: events_def artifact_of_def example_recording_def)
  have n1: "None \<notin> set (events decreasing_pair)" by (simp add: e1)
  have n2: "None \<notin> set (events unknown_action)" by (simp add: e2)
  have h1: "\<exists>i. Suc i < length (events decreasing_pair) \<and>
      js_less (ev_timestamp (the (events decreasing_pair ! Suc i)))
        (ev_timestamp (the (events decreasing_pair ! i)))"
    by (rule exI [of _ 0]) (simp add: e1)
  have h2: "\<exists>x \<in> set (events unknown_action).
      ev_action (the x) \<notin> {''forward'', ''backward'', ''left'', ''right''}"
    by (simp add: e2)
  have 1: "validate decreasing_pair = Inr False"
    using validate_rejects [of decreasing_pair] n1 h1 by blast
  have 2: "validate unknown_action = Inr False"
    using validate_rejects [of unknown_action] n2 h2 by blast
  have 3: "validate ?good = Inr True"
    by (simp add: validate_def artifact_of_def truthy_field_def truthy_number_def
          example_recording_def validActions_def)
  have nn: "NaN \<notin> set (map (\<lambda>x. ev_timestamp (the x)) (events ?good))"
    by (simp add: e3)
  have 4: "truthy_field (a_seed ?good) \<and>
      sorted_wrt js_le (map (\<lambda>x. ev_timestamp (the x)) (events ?good))"
    using validate_rejects [of ?good] 3 nn by blast
  from 1 2 3 4 show ?thesis by blast
qed

section \<open>The claims about the game and the generator\<close>

text \<open>C7: a \<^verbatim>\<open>left\<close> move when the column after the queued moves is \<open>0\<close>, a \<^verbatim>\<open>right\<close> move when
  it is \<open>columns - 1\<close>, and a \<^verbatim>\<open>backward\<close> move when the lane after the queued moves is \<open>0\<close>, return
  the game as it was: lane, column and queue of moves are unchanged.\<close>

theorem boundary_moves_rejected:
  "(snd (finalPositions g) = 0 \<longrightarrow> move ''left'' g = Inr g) \<and>
   (snd (finalPositions g) = columns - 1 \<longrightarrow> move ''right'' g = Inr g) \<and>
   (fst (finalPositions g) = 0 \<longrightarrow> move ''backward'' g = Inr g)"
  by (simp add: move_def Let_def)





lemmas frame_step_defs = frame_step_def advance_time_def start_step_def run_step_def

lemma animate_split:
  "animate ts g = (fst (hit_test (fst (frame_step ts g))),
                   snd (frame_step ts g) @ snd (hit_test (fst (frame_step ts g))))"
  by (simp add: animate_def frame_step_defs Let_def split: prod.splits)







lemma frame_step_completes:
  assumes "\<not> startMoving g" "stepStartTimestamp g = Some t0" "t0 \<noteq> 0" "ts - t0 > stepTime"
    and "moves g = m # ms"
  shows "m = ''forward'' \<Longrightarrow> currentLane (fst (frame_step ts g)) = currentLane g + 1 \<and>
            snd (frame_step ts g) = [onScoreChange (currentLane g + 1)]"
    and "m = ''backward'' \<Longrightarrow> currentLane (fst (frame_step ts g)) = currentLane g - 1 \<and>
            snd (frame_step ts g) = [onScoreChange (currentLane g - 1)]"
  using assms by (simp_all add: frame_step_defs step_frame_def Let_def)

lemma hit_test_currentLane: "currentLane (fst (hit_test g)) = currentLane g"
  by (simp add: hit_test_def Let_def split: option.splits)

lemma scoreChanges_onGameOver: "scoreChanges (map (\<lambda>v. onGameOver n) vs) = []"
  by (induction vs) simp_all

lemma hit_test_scoreChanges: "scoreChanges (snd (hit_test g)) = []"
  by (simp add: hit_test_def Let_def scoreChanges_onGameOver split: option.splits)

lemma scoreChanges_append: "scoreChanges (xs @ ys) = scoreChanges xs @ scoreChanges ys"
  by (induction xs rule: scoreChanges.induct) simp_all

text \<open>C8: in a frame in which the step in progress has lasted longer than \<open>stepTime\<close>, a
  \<^verbatim>\<open>backward\<close> move at the head of the queue decrements the lane and reports the decremented lane
  through \<^verbatim>\<open>onScoreChange\<close>, and a \<^verbatim>\<open>forward\<close> move increments it and reports the incremented
  lane; nothing else is reported as a score in that frame.\<close>

theorem completed_move_reports_new_lane:
  assumes "\<not> startMoving g" and "stepStartTimestamp g = Some t0" and "t0 \<noteq> 0"
    and "ts - t0 > stepTime"
  shows "(moves g = ''backward'' # ms \<longrightarrow>
            currentLane (fst (animate ts g)) = currentLane g - 1 \<and>
            scoreChanges (snd (animate ts g)) = [currentLane g - 1]) \<and>
         (moves g = ''forward'' # ms \<longrightarrow>
            currentLane (fst (animate ts g)) = currentLane g + 1 \<and>
            scoreChanges (snd (animate ts g)) = [currentLane g + 1])"
  using frame_step_completes [OF assms, of _ ms]
  by (auto simp: animate_split hit_test_currentLane scoreChanges_append hit_test_scoreChanges)







lemma random_range: "0 \<le> fst (random st) \<and> fst (random st) < 1"
proof -
  have "(unsigned w :: real) < 4294967296" for w :: "32 word"
  proof -
    have "unat w < 2 ^ LENGTH(32)" by (rule unsigned_less)
    then have "unat w < 4294967296" by simp
    then have "real (unat w) < real 4294967296" by (simp only: of_nat_less_iff)
    then show ?thesis by simp
  qed
  moreover have "0 \<le> (unsigned w :: real)" for w :: "32 word"
  proof -
    have "(unsigned w :: real) = real (unat w)" by simp
    then show ?thesis by (simp only: of_nat_0_le_iff)
  qed
  ultimately show ?thesis
    by (simp add: random_def Let_def)
qed

lemma randomInt_range:
  "mn < mx \<Longrightarrow> mn \<le> fst (randomInt mn mx st) \<and> fst (randomInt mn mx st) < mx"
proof -
  assume lt: "mn < mx"
  let ?r = "fst (random st)"
  have r: "0 \<le> ?r" "?r < 1" using random_range by auto
  have pos: "0 < real_of_int (mx - mn)" using lt by simp
  have lo: "0 \<le> \<lfloor>?r * real_of_int (mx - mn)\<rfloor>" using r pos by (simp add: zero_le_floor)
  have "?r * real_of_int (mx - mn) < real_of_int (mx - mn)" using r pos by simp
  then have hi: "\<lfloor>?r * real_of_int (mx - mn)\<rfloor> < mx - mn" by (simp add: floor_less_iff)
  from lo hi show ?thesis by (simp add: randomInt_def split_beta)
qed

text \<open>C9: on a non-empty array \<^verbatim>\<open>randomElement\<close> draws an index in \<open>[0, length)\<close> and returns the
  element there, an element of the array; on the empty array the index drawn is \<open>0\<close>, which the
  array does not have, and the result is \<^verbatim>\<open>undefined\<close>.\<close>

theorem randomElement_index:
  "(array \<noteq> [] \<longrightarrow>
      0 \<le> fst (randomInt 0 (int (length array)) st) \<and>
      fst (randomInt 0 (int (length array)) st) < int (length array) \<and>
      fst (randomElement array st) = Some (array ! nat (fst (randomInt 0 (int (length array)) st))) \<and>
      array ! nat (fst (randomInt 0 (int (length array)) st)) \<in> set array) \<and>
   fst (randomInt 0 (int (length ([] :: 'a list))) st) = 0 \<and>
   fst (randomElement ([] :: 'a list) st) = None"
proof -
  have 1: "0 \<le> fst (randomInt 0 (int (length array)) st) \<and>
      fst (randomInt 0 (int (length array)) st) < int (length array) \<and>
      fst (randomElement array st) = Some (array ! nat (fst (randomInt 0 (int (length array)) st))) \<and>
      array ! nat (fst (randomInt 0 (int (length array)) st)) \<in> set array" if "array \<noteq> []"
  proof -
    from that have "0 < int (length array)" by simp
    from randomInt_range [OF this, of st]
    have i: "0 \<le> fst (randomInt 0 (int (length array)) st)"
      "fst (randomInt 0 (int (length array)) st) < int (length array)" by auto
    then have "nat (fst (randomInt 0 (int (length array)) st)) < length array" by linarith
    then have "array ! nat (fst (randomInt 0 (int (length array)) st)) \<in> set array"
      by (rule nth_mem)
    with i show ?thesis
      by (simp add: randomElement_def array_get_def split_beta)
  qed
  have 2: "fst (randomInt 0 (int (length ([] :: 'a list))) st) = 0"
    by (simp add: randomInt_def split_beta)
  have 3: "fst (randomElement ([] :: 'a list) st) = None"
    by (simp add: randomElement_def array_get_def split_beta randomInt_def)
  from 1 2 3 show ?thesis by blast
qed

lemmas game_consts = zoom_def chickenSize_def positionWidth_def columns_def boardWidth_def
  stepTime_def aBitBeforeTheBeginingOfLane_def aBitAfterTheEndOFLane_def vehicleLength_def
  chicken_position_x_def

lemmas frame_defs = animate_def step_frame_def hit_test_def hits_def advance_lane_def
  advance_vehicle_def array_get_def truthy_def

text \<open>C7 at column \<open>1\<close> with a \<^verbatim>\<open>left\<close> queued, and at column \<open>15\<close> with a \<^verbatim>\<open>right\<close> queued.\<close>

theorem boundary_moves_rejected_witness:
  "move ''left'' (game_at [field_row 0, field_row 1] 0 1 [''left''] None) =
     Inr (game_at [field_row 0, field_row 1] 0 1 [''left''] None) \<and>
   move ''backward'' (game_at [field_row 0, field_row 1] 0 1 [''left''] None) =
     Inr (game_at [field_row 0, field_row 1] 0 1 [''left''] None) \<and>
   move ''right'' (game_at [field_row 0, field_row 1] 0 15 [''right''] None) =
     Inr (game_at [field_row 0, field_row 1] 0 15 [''right''] None)"
proof -
  let ?A = "game_at [field_row 0, field_row 1] 0 1 [''left''] None"
  let ?B = "game_at [field_row 0, field_row 1] 0 15 [''right''] None"
  have A: "finalPositions ?A = (0, 0)"
    by (simp add: finalPositions_def game_at_def queued_def)
  have B: "finalPositions ?B = (0, columns - 1)"
    by (simp add: finalPositions_def game_at_def queued_def columns_def)
  from boundary_moves_rejected [of ?A] boundary_moves_rejected [of ?B] A B
  show ?thesis by simp
qed

text \<open>C8 at lane \<open>1\<close>, \<open>201\<close> ms after the step began.\<close>

theorem completed_move_reports_new_lane_witness:
  "currentLane (fst (animate 1201 (game_at [field_row 0, field_row 1, field_row 2] 1 8
       [''backward''] (Some 1000)))) = 0 \<and>
   scoreChanges (snd (animate 1201 (game_at [field_row 0, field_row 1, field_row 2] 1 8
       [''backward''] (Some 1000)))) = [0] \<and>
   currentLane (fst (animate 1201 (game_at [field_row 0, field_row 1, field_row 2] 1 8
       [''forward'', ''left''] (Some 1000)))) = 2 \<and>
   scoreChanges (snd (animate 1201 (game_at [field_row 0, field_row 1, field_row 2] 1 8
       [''forward'', ''left''] (Some 1000)))) = [2]"
proof -
  let ?B = "game_at [field_row 0, field_row 1, field_row 2] 1 8 [''backward''] (Some 1000)"
  let ?F = "game_at [field_row 0, field_row 1, field_row 2] 1 8 [''forward'', ''left''] (Some 1000)"
  have b: "\<not> startMoving ?B" "stepStartTimestamp ?B = Some 1000" "(1000::real) \<noteq> 0"
    "1201 - 1000 > stepTime" "moves ?B = ''backward'' # []" "currentLane ?B = 1"
    by (simp_all add: game_at_def stepTime_def)
  have f: "\<not> startMoving ?F" "stepStartTimestamp ?F = Some 1000"
    "moves ?F = ''forward'' # [''left'']" "currentLane ?F = 1"
    by (simp_all add: game_at_def)
  from completed_move_reports_new_lane [OF b(1-4), of "[]"]
    completed_move_reports_new_lane [OF f(1,2) b(3,4), of "[''left'']"] b(5,6) f(3,4)
  show ?thesis by simp
qed


lemma mulberry32_1831565855: "mulberry32 1831565855 = 2581720956"
  by (simp add: mulberry32_def Let_def)

text \<open>C9 at the seed \<open>42\<close>, whose first draw gives the index \<open>1\<close>.\<close>

theorem randomElement_index_witness:
  "fst (randomInt 0 3 (SeededRandom 42)) = 1 \<and>
   fst (randomElement [''car'', ''truck'', ''forest''] (SeededRandom 42)) = Some ''truck'' \<and>
   fst (randomElement ([] :: string list) (SeededRandom 42)) = None"
proof -
  have i: "fst (randomInt 0 3 (SeededRandom 42)) = 1"
    by (simp add: randomInt_def random_def SeededRandom_def mulberry32_1831565855 Let_def)
  have len: "int (length [''car'', ''truck'', ''forest'']) = 3" by simp
  have ne: "[''car'', ''truck'', ''forest''] \<noteq> []" by simp
  have "fst (randomElement [''car'', ''truck'', ''forest''] (SeededRandom 42)) =
      Some ([''car'', ''truck'', ''forest''] ! nat (fst (randomInt 0 3 (SeededRandom 42))))"
    using randomElement_index [of "[''car'', ''truck'', ''forest'']" "SeededRandom 42", unfolded len] ne
    by blast
  then have e: "fst (randomElement [''car'', ''truck'', ''forest''] (SeededRandom 42)) = Some ''truck''"
    by (simp add: i)
  have n: "fst (randomElement ([] :: string list) (SeededRandom 42)) = None"
    using randomElement_index [of "[] :: string list" "SeededRandom 42"] by blast
  from i e n show ?thesis by blast
qed

section \<open>The rows and the outcomes of Math.random\<close>

lemma consumesI:
  assumes "\<And>ds a rest. f ds = Some (a, rest) \<Longrightarrow>
     \<exists>used. ds = used @ rest \<and> (\<forall>ds'. f (used @ ds') = Some (a, ds'))"
  shows "consumes f"
  using assms unfolding consumes_def by blast

lemma consumesD:
  assumes "consumes f" "f ds = Some (a, rest)"
  obtains used where "ds = used @ rest" "\<And>ds'. f (used @ ds') = Some (a, ds')"
  using assms unfolding consumes_def by blast

lemma consumes_return: "consumes (\<lambda>ds. Some (a, ds))"
  by (rule consumesI) auto

lemma consumes_Math_random: "consumes Math_random"
proof (rule consumesI)
  fix ds r rest
  assume "Math_random ds = Some (r, rest)"
  then have "ds = [r] @ rest" "0 \<le> r \<and> r < 1"
    by (cases ds; simp split: if_splits)+
  then show "\<exists>used. ds = used @ rest \<and> (\<forall>ds'. Math_random (used @ ds') = Some (r, ds'))"
    by (intro exI [of _ "[r]"]) simp
qed

lemma consumes_bind:
  assumes f: "consumes f" and g: "\<And>a. consumes (g a)"
  shows "consumes (\<lambda>ds. Option.bind (f ds) (\<lambda>(a, ds1). g a ds1))"
proof (rule consumesI)
  fix ds b rest
  assume "Option.bind (f ds) (\<lambda>(a, ds1). g a ds1) = Some (b, rest)"
  then obtain a ds1 where fa: "f ds = Some (a, ds1)" and gb: "g a ds1 = Some (b, rest)"
    by (auto simp: bind_eq_Some_conv)
  from consumesD [OF f fa] obtain u1 where u1: "ds = u1 @ ds1"
    "\<And>ds'. f (u1 @ ds') = Some (a, ds')" by blast
  from consumesD [OF g gb] obtain u2 where u2: "ds1 = u2 @ rest"
    "\<And>ds'. g a (u2 @ ds') = Some (b, ds')" by blast
  show "\<exists>used. ds = used @ rest \<and>
      (\<forall>ds'. Option.bind (f (used @ ds')) (\<lambda>(a, ds1). g a ds1) = Some (b, ds'))"
    by (intro exI [of _ "u1 @ u2"]) (simp add: u1 u2)
qed

lemma consumes_if: "consumes f \<Longrightarrow> consumes g \<Longrightarrow> consumes (\<lambda>ds. if c then f ds else g ds)"
  by (cases c) simp_all

lemma consumes_Car: "consumes Car"
  unfolding Car_def [abs_def] by (intro consumes_bind consumes_Math_random consumes_return)

lemma consumes_Truck: "consumes Truck"
  unfolding Truck_def [abs_def] by (intro consumes_bind consumes_Math_random consumes_return)

lemma consumes_Tree: "consumes Tree"
  unfolding Tree_def [abs_def] by (intro consumes_bind consumes_Math_random consumes_return)

lemma consumes_tree_position: "consumes (tree_position occ)"
proof (rule consumesI)
  fix ds p rest
  assume "tree_position occ ds = Some (p, rest)"
  then show "\<exists>used. ds = used @ rest \<and> (\<forall>ds'. tree_position occ (used @ ds') = Some (p, ds'))"
  proof (induction ds)
    case Nil
    then show ?case by simp
  next
    case (Cons d ds)
    from Cons.prems have d: "0 \<le> d \<and> d < 1" by (simp split: if_splits)
    show ?case
    proof (cases "\<lfloor>d * real_of_int columns\<rfloor> \<in> occ")
      case True
      with Cons.prems d have "tree_position occ ds = Some (p, rest)" by simp
      from Cons.IH [OF this] obtain used where
        "ds = used @ rest" "\<forall>ds'. tree_position occ (used @ ds') = Some (p, ds')" by blast
      with True d show ?thesis by (intro exI [of _ "d # used"]) simp
    next
      case False
      with Cons.prems d show ?thesis by (intro exI [of _ "[d]"]) (simp add: Let_def)
    qed
  qed
qed

lemma consumes_vehicle_position: "consumes (vehicle_position divider occ)"
proof (rule consumesI)
  fix ds p rest
  assume "vehicle_position divider occ ds = Some (p, rest)"
  then show "\<exists>used. ds = used @ rest \<and>
      (\<forall>ds'. vehicle_position divider occ (used @ ds') = Some (p, ds'))"
  proof (induction ds)
    case Nil
    then show ?case by simp
  next
    case (Cons d ds)
    from Cons.prems have d: "0 \<le> d \<and> d < 1" by (simp split: if_splits)
    show ?case
    proof (cases "\<lfloor>d * real_of_int columns / divider\<rfloor> \<in> occ")
      case True
      with Cons.prems d have "vehicle_position divider occ ds = Some (p, rest)" by simp
      from Cons.IH [OF this] obtain used where
        "ds = used @ rest" "\<forall>ds'. vehicle_position divider occ (used @ ds') = Some (p, ds')"
        by blast
      with True d show ?thesis by (intro exI [of _ "d # used"]) simp
    next
      case False
      with Cons.prems d show ?thesis by (intro exI [of _ "[d]"]) (simp add: Let_def)
    qed
  qed
qed

lemma consumes_plant_trees: "consumes (plant_trees n occ)"
proof (induction n arbitrary: occ)
  case 0
  show ?case by (simp add: consumes_return)
next
  case (Suc n)
  have "plant_trees (Suc n) occ =
      (\<lambda>ds. Option.bind (Tree ds) (\<lambda>(height, ds1).
         Option.bind (tree_position occ ds1) (\<lambda>(position, ds2).
           plant_trees n (insert position occ) ds2)))"
    by (rule ext) simp
  then show ?case
    by (simp only:) (intro consumes_bind consumes_Tree consumes_tree_position Suc.IH)
qed

lemma consumes_place_vehicles: "consumes (place_vehicles n ty divider occ)"
proof (induction n arbitrary: occ)
  case 0
  show ?case by (simp add: consumes_return)
next
  case (Suc n)
  have "place_vehicles (Suc n) ty divider occ =
      (\<lambda>ds. Option.bind (if ty = ''car'' then Car ds else Truck ds) (\<lambda>(color, ds1).
         Option.bind (vehicle_position divider occ ds1) (\<lambda>(position, ds2).
           Option.bind (place_vehicles n ty divider (insert position occ) ds2) (\<lambda>(vs, ds3).
             Some (((real_of_int position * positionWidth * divider + positionWidth / 2) * zoom
                  - (boardWidth * zoom) / 2) # vs, ds3)))))"
    by (rule ext) simp
  then show ?case
    by (simp only:)
       (intro consumes_bind consumes_if consumes_Car consumes_Truck consumes_vehicle_position
          Suc.IH consumes_return)
qed

lemma consumes_Lane: "consumes (Lane i)"
  unfolding Lane_def [abs_def] Let_def
  by (intro consumes_if consumes_bind consumes_return consumes_Math_random
        consumes_plant_trees consumes_place_vehicles)

lemma consumes_map_Lane: "consumes (map_Lane is)"
proof (induction "is")
  case Nil
  show ?case by (simp add: consumes_return)
next
  case (Cons i "is")
  have "map_Lane (i # is) =
      (\<lambda>ds. Option.bind (Lane i ds) (\<lambda>(l, ds1).
         Option.bind (map_Lane is ds1) (\<lambda>(ls, ds2). Some (l # ls, ds2))))"
    by (rule ext) simp
  then show ?case
    by (simp only:) (intro consumes_bind consumes_Lane Cons.IH consumes_return)
qed

lemma consumes_generateLanes: "consumes generateLanes"
  unfolding generateLanes_def [abs_def]
  by (intro consumes_bind consumes_map_Lane consumes_return)

lemma finalPositions_draws [simp]:
  "finalPositions (g\<lparr>random_draws := x\<rparr>) = finalPositions g"
  by (simp add: finalPositions_def)

lemma begin_step_draws [simp]:
  "begin_step (g\<lparr>random_draws := x\<rparr>) = (begin_step g)\<lparr>random_draws := x\<rparr>"
  by (simp add: begin_step_def)

lemma push_move_draws [simp]:
  "push_move d (g\<lparr>random_draws := x\<rparr>) = (push_move d g)\<lparr>random_draws := x\<rparr>"
  by (simp add: push_move_def)

lemma random_draws_begin_step [simp]: "random_draws (begin_step g) = random_draws g"
  by (simp add: begin_step_def)

lemma random_draws_push_move [simp]: "random_draws (push_move d g) = random_draws g"
  by (simp add: push_move_def)

lemma addLane_draws:
  assumes "addLane g = Some g'"
  shows "\<exists>used. random_draws g = used @ random_draws g' \<and>
     (\<forall>ds'. addLane (g\<lparr>random_draws := used @ ds'\<rparr>) = Some (g'\<lparr>random_draws := ds'\<rparr>))"
proof -
  from assms obtain l rest where l: "Lane (int (length (lanes g))) (random_draws g) = Some (l, rest)"
    and g': "g' = g\<lparr>lanes := lanes g @ [l], random_draws := rest\<rparr>"
    by (auto simp: addLane_def bind_eq_Some_conv)
  from consumesD [OF consumes_Lane l] obtain used where
    u: "random_draws g = used @ rest"
    "\<And>ds'. Lane (int (length (lanes g))) (used @ ds') = Some (l, ds')" by blast
  show ?thesis
    by (intro exI [of _ used]) (simp add: g' u addLane_def)
qed

lemma move_backward_eq:
  "move ''backward'' g =
     (if gameOver g then Inr g
      else if fst (finalPositions g) = 0 then Inr g
      else case blocked (lanes g) (fst (finalPositions g) - 1) (snd (finalPositions g)) of
             Inl e \<Rightarrow> Inl e
           | Inr b \<Rightarrow> if b then Inr g else Inr (push_move ''backward'' (begin_step g)))"
  by (simp add: move_def Let_def)

lemma move_left_eq:
  "move ''left'' g =
     (if gameOver g then Inr g
      else if snd (finalPositions g) = 0 then Inr g
      else case blocked (lanes g) (fst (finalPositions g)) (snd (finalPositions g) - 1) of
             Inl e \<Rightarrow> Inl e
           | Inr b \<Rightarrow> if b then Inr g else Inr (push_move ''left'' (begin_step g)))"
  by (simp add: move_def Let_def)

lemma move_right_eq:
  "move ''right'' g =
     (if gameOver g then Inr g
      else if snd (finalPositions g) = columns - 1 then Inr g
      else case blocked (lanes g) (fst (finalPositions g)) (snd (finalPositions g) + 1) of
             Inl e \<Rightarrow> Inl e
           | Inr b \<Rightarrow> if b then Inr g else Inr (push_move ''right'' (begin_step g)))"
  by (simp add: move_def Let_def)

lemma move_other_eq:
  "d \<noteq> ''forward'' \<Longrightarrow> d \<noteq> ''backward'' \<Longrightarrow> d \<noteq> ''left'' \<Longrightarrow> d \<noteq> ''right'' \<Longrightarrow>
   move d g = (if gameOver g then Inr g else Inr (push_move d g))"
  by (simp add: move_def Let_def)

lemma move_not_forward:
  assumes "d \<noteq> ''forward''"
  shows "move d (g\<lparr>random_draws := x\<rparr>) =
           (case move d g of Inl e \<Rightarrow> Inl e | Inr g' \<Rightarrow> Inr (g'\<lparr>random_draws := x\<rparr>))"
    and "move d g = Inr g' \<Longrightarrow> random_draws g' = random_draws g"
proof -
  consider "d = ''backward''" | "d = ''left''" | "d = ''right''"
    | "d \<noteq> ''backward''" "d \<noteq> ''left''" "d \<noteq> ''right''" by blast
  then have "move d (g\<lparr>random_draws := x\<rparr>) =
           (case move d g of Inl e \<Rightarrow> Inl e | Inr g' \<Rightarrow> Inr (g'\<lparr>random_draws := x\<rparr>)) \<and>
      (move d g = Inr g' \<longrightarrow> random_draws g' = random_draws g)"
  proof cases
    case 1
    then show ?thesis by (auto simp: move_backward_eq split: sum.splits)
  next
    case 2
    then show ?thesis by (auto simp: move_left_eq split: sum.splits)
  next
    case 3
    then show ?thesis by (auto simp: move_right_eq split: sum.splits)
  next
    case 4
    with assms show ?thesis by (auto simp: move_other_eq)
  qed
  then show "move d (g\<lparr>random_draws := x\<rparr>) =
           (case move d g of Inl e \<Rightarrow> Inl e | Inr g' \<Rightarrow> Inr (g'\<lparr>random_draws := x\<rparr>))"
    and "move d g = Inr g' \<Longrightarrow> random_draws g' = random_draws g" by blast+
qed

lemma move_forward_eq:
  "move ''forward'' g =
     (if gameOver g then Inr g
      else case blocked (lanes g) (fst (finalPositions g) + 1) (snd (finalPositions g)) of
             Inl e \<Rightarrow> Inl e
           | Inr b \<Rightarrow>
               if b then Inr g
               else (case addLane (begin_step g) of
                       None \<Rightarrow> Inl NoMoreDraws
                     | Some g' \<Rightarrow> Inr (push_move ''forward'' g')))"
  by (simp add: move_def Let_def)

lemma move_draws:
  assumes "move d g = Inr g'"
  shows "\<exists>used. random_draws g = used @ random_draws g' \<and>
     (\<forall>ds'. move d (g\<lparr>random_draws := used @ ds'\<rparr>) = Inr (g'\<lparr>random_draws := ds'\<rparr>))"
proof (cases "d = ''forward''")
  case False
  from move_not_forward [OF False] assms show ?thesis
    by (intro exI [of _ "[]"]) simp
next
  case fw: True
  let ?b = "blocked (lanes g) (fst (finalPositions g) + 1) (snd (finalPositions g))"
  show ?thesis
  proof (cases "gameOver g \<or> ?b = Inr True")
    case True
    with assms fw have "g' = g" by (auto simp: move_forward_eq split: if_splits)
    moreover have "move ''forward'' (g\<lparr>random_draws := x\<rparr>) = Inr (g\<lparr>random_draws := x\<rparr>)" for x
      using True by (auto simp: move_forward_eq)
    ultimately show ?thesis using fw
      by (intro exI [of _ "[]"]) simp
  next
    case False
    with assms fw have b: "\<not> gameOver g" "?b = Inr False"
      by (auto simp: move_forward_eq split: sum.splits if_splits)
    with assms fw obtain g1 where a: "addLane (begin_step g) = Some g1"
      and g': "g' = push_move ''forward'' g1"
      by (auto simp: move_forward_eq split: option.splits)
    from addLane_draws [OF a] obtain used where
      u: "random_draws g = used @ random_draws g1"
      "\<And>ds'. addLane ((begin_step g)\<lparr>random_draws := used @ ds'\<rparr>) = Some (g1\<lparr>random_draws := ds'\<rparr>)"
      by auto
    show ?thesis
      by (intro exI [of _ used]) (simp add: g' u b fw move_forward_eq)
  qed
qed

lemma hits_draws [simp]: "hits (g\<lparr>random_draws := x\<rparr>) = hits g"
  by (intro ext) (simp add: hits_def)

lemma hit_test_draws:
  "hit_test (g\<lparr>random_draws := x\<rparr>) =
     ((fst (hit_test g))\<lparr>random_draws := x\<rparr>, snd (hit_test g))"
  "random_draws (fst (hit_test g)) = random_draws g"
  by (simp_all add: hit_test_def hits_def Let_def split: option.splits)

lemma step_frame_draws:
  "step_frame ts t0 (g\<lparr>random_draws := x\<rparr>) =
     ((fst (step_frame ts t0 g))\<lparr>random_draws := x\<rparr>, snd (step_frame ts t0 g))"
  "random_draws (fst (step_frame ts t0 g)) = random_draws g"
  by (simp_all add: step_frame_def Let_def split_beta split: list.splits)

lemma advance_time_draws:
  "advance_time ts (g\<lparr>random_draws := x\<rparr>) = (advance_time ts g)\<lparr>random_draws := x\<rparr>"
  "random_draws (advance_time ts g) = random_draws g"
  by (simp_all add: advance_time_def)

lemma start_step_draws:
  "start_step ts (g\<lparr>random_draws := x\<rparr>) = (start_step ts g)\<lparr>random_draws := x\<rparr>"
  "random_draws (start_step ts g) = random_draws g"
  by (simp_all add: start_step_def)

lemma run_step_draws:
  "run_step ts (g\<lparr>random_draws := x\<rparr>) =
     ((fst (run_step ts g))\<lparr>random_draws := x\<rparr>, snd (run_step ts g))"
  "random_draws (fst (run_step ts g)) = random_draws g"
  by (simp_all add: run_step_def step_frame_draws split: option.splits)

lemma frame_step_draws:
  "frame_step ts (g\<lparr>random_draws := x\<rparr>) =
     ((fst (frame_step ts g))\<lparr>random_draws := x\<rparr>, snd (frame_step ts g))"
  "random_draws (fst (frame_step ts g)) = random_draws g"
  by (simp_all add: frame_step_def advance_time_draws start_step_draws run_step_draws)

lemma animate_draws:
  "animate ts (g\<lparr>random_draws := x\<rparr>) =
     ((fst (animate ts g))\<lparr>random_draws := x\<rparr>, snd (animate ts g))"
  "random_draws (fst (animate ts g)) = random_draws g"
  by (simp_all add: animate_split frame_step_draws hit_test_draws)

lemma play_draws:
  "play cs g = Inr (g', out) \<Longrightarrow>
   \<exists>used. random_draws g = used @ random_draws g' \<and>
     (\<forall>ds'. play cs (g\<lparr>random_draws := used @ ds'\<rparr>) = Inr (g'\<lparr>random_draws := ds'\<rparr>, out))"
proof (induction cs arbitrary: g out)
  case Nil
  then show ?case by (intro exI [of _ "[]"]) auto
next
  case (Cons c cs)
  show ?case
  proof (cases c)
    case (Move d)
    with Cons.prems obtain g1 where m: "move d g = Inr g1" and p: "play cs g1 = Inr (g', out)"
      by (auto split: sum.splits)
    from move_draws [OF m] obtain u1 where u1: "random_draws g = u1 @ random_draws g1"
      "\<And>ds'. move d (g\<lparr>random_draws := u1 @ ds'\<rparr>) = Inr (g1\<lparr>random_draws := ds'\<rparr>)" by blast
    from Cons.IH [OF p] obtain u2 where u2: "random_draws g1 = u2 @ random_draws g'"
      "\<And>ds'. play cs (g1\<lparr>random_draws := u2 @ ds'\<rparr>) = Inr (g'\<lparr>random_draws := ds'\<rparr>, out)"
      by blast
    show ?thesis
      by (intro exI [of _ "u1 @ u2"]) (simp add: Move u1 u2)
  next
    case (Frame t)
    let ?g1 = "fst (animate t g)"
    from Cons.prems Frame obtain out2 where p: "play cs ?g1 = Inr (g', out2)"
      and out: "out = snd (animate t g) @ out2"
      by (auto simp: split_beta split: sum.splits)
    from Cons.IH [OF p] obtain u where u: "random_draws ?g1 = u @ random_draws g'"
      "\<And>ds'. play cs (?g1\<lparr>random_draws := u @ ds'\<rparr>) = Inr (g'\<lparr>random_draws := ds'\<rparr>, out2)"
      by blast
    show ?thesis
      using u by (intro exI [of _ u]) (simp add: Frame animate_draws out)
  qed
qed

lemma place_vehicles_3:
  "place_vehicles 3 ty dv occ ds = place_vehicles (Suc (Suc (Suc 0))) ty dv occ ds"
  by (simp only: numeral_3_eq_3)

lemma place_vehicles_2:
  "place_vehicles 2 ty dv occ ds = place_vehicles (Suc (Suc 0)) ty dv occ ds"
  by (simp only: numeral_2_eq_2)

lemma plant_trees_4:
  "plant_trees 4 occ ds = plant_trees (Suc (Suc (Suc (Suc 0)))) occ ds"
proof -
  have "(4::nat) = Suc (Suc (Suc (Suc 0)))" by simp
  then show ?thesis by (simp only:)
qed

lemmas lane_defs = Lane_def Car_def Truck_def Tree_def laneTypes_def laneSpeeds_def
  vehicleColors_def treeHeights_def columns_def positionWidth_def zoom_def boardWidth_def
  place_vehicles_3 place_vehicles_2 plant_trees_4

lemma Lane_car_draws:
  "0 < i \<Longrightarrow> Lane i (car_draws @ ds) = Some (car_row i True [-672, -336, 0] (5 / 2), ds)"
  by (simp add: lane_defs car_draws_def Let_def car_row_def)

lemma Lane_forest_draws:
  "0 < i \<Longrightarrow> Lane i (forest_draws @ ds) = Some (forest_row i {0, 4, 8, 12}, ds)"
  by (simp add: lane_defs forest_draws_def Let_def insert_commute forest_row_def)

lemma Lane_field: "i \<le> 0 \<Longrightarrow> Lane i ds = Some (field_row i, ds)"
  by (simp add: Lane_def field_row_def)

lemma index_rows [simp]:
  "index (field_row i) = i" "index (car_row i d vs sp) = i" "index (forest_row i occ) = i"
  by (simp_all add: field_row_def car_row_def forest_row_def)

lemma type_rows [simp]:
  "type (field_row i) = ''field''" "type (car_row i d vs sp) = ''car''"
  "type (forest_row i occ) = ''forest''"
  by (simp_all add: field_row_def car_row_def forest_row_def)

lemma initializeValues_A:
  "initializeValues (draws_A rest) = Some (game_start rows_A (car_draws @ rest))"
  by (simp add: initializeValues_def generateLanes_def draws_A_def Lane_field Lane_car_draws
        rows_A_def game_start_def columns_def)

lemma initializeValues_B:
  "initializeValues (draws_B rest) = Some (game_start rows_B (car_draws @ rest))"
  by (simp add: initializeValues_def generateLanes_def draws_B_def Lane_field Lane_car_draws
        Lane_forest_draws rows_B_def game_start_def columns_def)

lemma move_forward_B:
  "move ''forward'' (game_start rows_B ds) = Inr (game_start rows_B ds)"
  by (simp add: move_def Let_def finalPositions_def game_start_def rows_B_def blocked_def
        array_get_def forest_row_def)

lemma move_forward_A:
  "move ''forward'' (game_start rows_A (car_draws @ ds)) =
     Inr ((game_start (rows_A @ [car_row 10 True [-672, -336, 0] (5 / 2)]) ds)
            \<lparr>startMoving := True, moves := [''forward'']\<rparr>)"
  by (simp add: move_def Let_def finalPositions_def game_start_def rows_A_def blocked_def
        array_get_def car_row_def field_row_def begin_step_def truthy_def addLane_def
        push_move_def Lane_car_draws [unfolded car_row_def])

lemma play_A:
  "map_sum id (\<lambda>(g, out). (map type (lanes g), currentLane g, gameOver g, random_draws g, out))
     (play [Move ''forward'', Frame 16, Frame 300] (game_start rows_A (car_draws @ ds))) =
   Inr ([''field'', ''car'', ''car'', ''car'', ''car'', ''car'', ''car'', ''car'', ''car'', ''car'',
         ''car''], 1, True, ds, [onScoreChange 1, onGameOver 1])"
proof -
  have "play [Move ''forward'', Frame 16, Frame 300] (game_start rows_A (car_draws @ ds)) =
      play [Frame 16, Frame 300]
        ((game_start (rows_A @ [car_row 10 True [-672, -336, 0] (5 / 2)]) ds)
            \<lparr>startMoving := True, moves := [''forward'']\<rparr>)"
    by (simp add: move_forward_A)
  then show ?thesis
    by (simp add: game_start_def rows_A_def frame_defs game_consts Let_def
        car_row_def field_row_def)
qed

lemma play_B:
  "map_sum id (\<lambda>(g, out). (map type (lanes g), currentLane g, gameOver g, random_draws g, out))
     (play [Move ''forward'', Frame 16, Frame 300] (game_start rows_B ds)) =
   Inr ([''field'', ''forest'', ''car'', ''car'', ''car'', ''car'', ''car'', ''car'', ''car'', ''car''],
        0, False, ds, [])"
proof -
  have "play [Move ''forward'', Frame 16, Frame 300] (game_start rows_B ds) =
      play [Frame 16, Frame 300] (game_start rows_B ds)"
    by (simp add: move_forward_B)
  then show ?thesis
    by (simp add: game_start_def rows_B_def frame_defs game_consts Let_def
        car_row_def field_row_def forest_row_def)
qed

text \<open>
  C1, as stated, fails. The component takes no seed: \<^verbatim>\<open>Lane\<close> draws from \<^verbatim>\<open>Math.random()\<close>, and
  \<^verbatim>\<open>SeededRandom\<close> is not its source. Two sessions with the same inputs (one \<^verbatim>\<open>forward\<close>, frames at
  \<open>16\<close> and \<open>300\<close> ms) whose \<^verbatim>\<open>Math.random()\<close> outcomes differ: in the first, row \<open>1\<close> is a car row, the
  chicken steps under a car and the score \<open>1\<close> and the game over are reported; in the second, row
  \<open>1\<close> is a forest with a tree in the chicken's column, the move is dropped and nothing is
  reported.
\<close>

theorem same_inputs_different_rows_counterexample:
  "map_sum id (\<lambda>(g, out). (map type (lanes g), out))
     (session (draws_A []) [Move ''forward'', Frame 16, Frame 300]) =
   Inr ([''field'', ''car'', ''car'', ''car'', ''car'', ''car'', ''car'', ''car'', ''car'', ''car'',
         ''car''], [onScoreChange 1, onGameOver 1]) \<and>
   map_sum id (\<lambda>(g, out). (map type (lanes g), out))
     (session (draws_B []) [Move ''forward'', Frame 16, Frame 300]) =
   Inr ([''field'', ''forest'', ''car'', ''car'', ''car'', ''car'', ''car'', ''car'', ''car'', ''car''],
        [])"
proof -
  have a: "session (draws_A []) [Move ''forward'', Frame 16, Frame 300] =
      play [Move ''forward'', Frame 16, Frame 300] (game_start rows_A (car_draws @ []))"
    by (simp only: session_def initializeValues_A option.case)
  have b: "session (draws_B []) [Move ''forward'', Frame 16, Frame 300] =
      play [Move ''forward'', Frame 16, Frame 300] (game_start rows_B (car_draws @ []))"
    by (simp only: session_def initializeValues_B option.case)
  from play_A [of "[]"] play_B [of "car_draws @ []"] show ?thesis
    unfolding a b by (auto simp: map_sum_def split: sum.splits)
qed

text \<open>
  C1 (amended): a session is determined by its calls and by the outcomes of \<^verbatim>\<open>Math.random()\<close>
  that it consumes, row by row in the order of the rows and within a row in the order of the
  draws: when a session on the outcomes \<open>ds\<close> ends in the game \<open>g\<close> with the calls \<open>out\<close> of the
  callbacks, it has consumed a prefix \<open>used\<close> of \<open>ds\<close>, and every session with the same calls whose
  outcomes start with \<open>used\<close> ends with the same rows, the same lane and column, and the same
  reported scores, whatever outcomes follow.
\<close>

theorem session_depends_on_draws_consumed:
  "session ds cs = Inr (g, out) \<Longrightarrow>
   \<exists>used. ds = used @ random_draws g \<and>
     (\<forall>ds'. session (used @ ds') cs = Inr (g\<lparr>random_draws := ds'\<rparr>, out))"
proof -
  assume s: "session ds cs = Inr (g, out)"
  then obtain g0 where i: "initializeValues ds = Some g0" and p: "play cs g0 = Inr (g, out)"
    by (auto simp: session_def split: option.splits)
  from i obtain ls rest where gl: "generateLanes ds = Some (ls, rest)"
    and g0: "g0 = \<lparr>lanes = ls, currentLane = 0, currentColumn = \<lfloor>real_of_int columns / 2\<rfloor>,
                previousTimestamp = None, startMoving = False, moves = [],
                stepStartTimestamp = None, gameOver = False, chicken_x = 0,
                random_draws = rest\<rparr>"
    by (auto simp: initializeValues_def bind_eq_Some_conv)
  from consumesD [OF consumes_generateLanes gl] obtain u1 where
    u1: "ds = u1 @ rest" "\<And>ds'. generateLanes (u1 @ ds') = Some (ls, ds')" by blast
  from play_draws [OF p] obtain u2 where u2: "random_draws g0 = u2 @ random_draws g"
    "\<And>ds'. play cs (g0\<lparr>random_draws := u2 @ ds'\<rparr>) = Inr (g\<lparr>random_draws := ds'\<rparr>, out)"
    by blast
  have init: "initializeValues (u1 @ u2 @ ds') = Some (g0\<lparr>random_draws := u2 @ ds'\<rparr>)" for ds'
    by (simp add: initializeValues_def u1(2) g0)
  show ?thesis
    using u1(1) u2 by (intro exI [of _ "u1 @ u2"]) (simp add: session_def init g0)
qed

text \<open>The amended C1 on the session of car rows: with other outcomes after the ninety
  consumed, the same rows and the same calls of the callbacks.\<close>

theorem session_depends_on_draws_consumed_witness:
  "\<exists>used g out.
     draws_A [1 / 2] = used @ [1 / 2] \<and>
     session (draws_A [1 / 2]) [Move ''forward'', Frame 16, Frame 300] = Inr (g, out) \<and>
     session (used @ [0, 1 / 4]) [Move ''forward'', Frame 16, Frame 300] =
       Inr (g\<lparr>random_draws := [0, 1 / 4]\<rparr>, out) \<and>
     out = [onScoreChange 1, onGameOver 1]"
proof -
  let ?cs = "[Move ''forward'', Frame 16, Frame 300]"
  have a: "session (draws_A [1 / 2]) ?cs = play ?cs (game_start rows_A (car_draws @ [1 / 2]))"
    by (simp only: session_def initializeValues_A option.case)
  from play_A [of "[1 / 2]"] obtain g out where
    s: "session (draws_A [1 / 2]) ?cs = Inr (g, out)"
    and r: "random_draws g = [1 / 2]" and o: "out = [onScoreChange 1, onGameOver 1]"
    unfolding a by (auto simp: map_sum_def split: sum.splits)
  from session_depends_on_draws_consumed [OF s] r obtain used where
    "draws_A [1 / 2] = used @ [1 / 2]"
    "\<forall>ds'. session (used @ ds') ?cs = Inr (g\<lparr>random_draws := ds'\<rparr>, out)" by auto
  with s o show ?thesis by blast
qed




section \<open>The JSON text of a recording\<close>

declare digits.simps [simp del]

lemma char_eq_code: "(c = char_of n) = (of_char c = (n :: nat))" if "n < 256"
proof
  assume "c = char_of n"
  with that show "of_char c = n" by simp
next
  assume "of_char c = n"
  then have "char_of (of_char c :: nat) = char_of n" by simp
  then show "c = char_of n" by simp
qed

lemma char_of_eq_code: "(char_of n = c) = (of_char c = (n :: nat))" if "n < 256"
  using char_eq_code [OF that, of c] by auto

lemma is_digit_digit_char: "d < 10 \<Longrightarrow> is_digit (digit_char d)"
  by (simp add: is_digit_def digit_char_def)

lemma digit_value_digit_char: "d < 10 \<Longrightarrow> digit_value (digit_char d) = d"
  by (simp add: digit_value_def digit_char_def)

lemma digit_char_zero: "d < 10 \<Longrightarrow> (digit_char d = CHR ''0'') = (d = 0)"
proof -
  assume d: "d < 10"
  have "CHR ''0'' = digit_char 0" by (simp add: digit_char_def char_eq_code)
  moreover have "(digit_char d = digit_char 0) = (d = 0)"
  proof
    assume "digit_char d = digit_char 0"
    then have "digit_value (digit_char d) = digit_value (digit_char 0)" by simp
    with d show "d = 0" by (simp add: digit_value_digit_char)
  qed simp
  ultimately show ?thesis by simp
qed

lemma digits_not_Nil: "digits n \<noteq> []"
  by (subst digits.simps) simp

lemma digits_all_digit: "\<forall>c \<in> set (digits n). is_digit c"
proof (induction n rule: digits.induct)
  case (1 n)
  show ?case
  proof (cases "n < 10")
    case True
    then show ?thesis by (subst digits.simps) (simp add: is_digit_digit_char)
  next
    case False
    with 1 show ?thesis by (subst digits.simps) (simp add: is_digit_digit_char)
  qed
qed

lemma digits_value: "digits_number (digits n) = n"
proof (induction n rule: digits.induct)
  case (1 n)
  show ?case
  proof (cases "n < 10")
    case True
    then show ?thesis
      by (subst digits.simps) (simp add: digits_number_def digit_value_digit_char)
  next
    case False
    with 1 show ?thesis
      by (subst digits.simps) (simp add: digits_number_def digit_value_digit_char)
  qed
qed

lemma digits_hd: "0 < n \<Longrightarrow> hd (digits n) \<noteq> CHR ''0''"
proof (induction n rule: digits.induct)
  case (1 n)
  show ?case
  proof (cases "n < 10")
    case True
    with "1.prems" show ?thesis by (subst digits.simps) (simp add: digit_char_zero)
  next
    case False
    then have "0 < n div 10" by simp
    with "1.IH" False have "hd (digits (n div 10)) \<noteq> CHR ''0''" by simp
    with False show ?thesis by (subst digits.simps) (simp add: digits_not_Nil)
  qed
qed

lemma digits_zero: "digits 0 = ''0''"
  by (subst digits.simps) (simp add: digit_char_def char_of_eq_code)

lemma digits_leading: "hd (digits n) \<noteq> CHR ''0'' \<or> length (digits n) = 1"
proof (cases "n = 0")
  case True
  then show ?thesis by (simp add: digits_zero)
next
  case False
  then show ?thesis using digits_hd [of n] by simp
qed

lemma digits_list_all: "list_all is_digit (digits n)"
  using digits_all_digit [of n] by (simp add: list_all_iff)

lemma takeWhile_digits:
  "takeWhile is_digit (digits n) = digits n"
  "dropWhile is_digit (digits n) = []"
  using digits_all_digit [of n] by simp_all

lemma digits_no_minus: "hd (digits n) \<noteq> CHR ''-''"
proof -
  have "hd (digits n) \<in> set (digits n)" by (simp add: digits_not_Nil)
  with digits_all_digit have "is_digit (hd (digits n))" by blast
  then show ?thesis by (auto simp: is_digit_def)
qed

lemma strip_minus_show_integer:
  "strip_minus (show_integer i) = digits (nat \<bar>i\<bar>)"
proof (cases "i < 0")
  case True
  then show ?thesis by (simp add: strip_minus_def show_integer_def)
next
  case False
  obtain c cs where d: "digits (nat i) = c # cs"
    using digits_not_Nil by (cases "digits (nat i)") auto
  then have "c \<noteq> CHR ''-''" using digits_no_minus [of "nat i"] by simp
  with False d show ?thesis by (simp add: strip_minus_def show_integer_def)
qed

lemma show_integer_syntax: "json_number_syntax (show_integer i)"
  using digits_leading [of "nat \<bar>i\<bar>"]
  by (simp add: json_number_syntax_def strip_minus_show_integer takeWhile_digits digits_not_Nil
        fraction_syntax_def)

lemma read_show_integer: "read_integer (show_integer i) = Finite i"
proof (cases "i < 0")
  case True
  then have "show_integer i \<noteq> digits (nat \<bar>i\<bar>)"
    using digits_no_minus [of "nat \<bar>i\<bar>"] by (auto simp: show_integer_def)
  with True show ?thesis
    by (simp add: read_integer_def strip_minus_show_integer digits_not_Nil digits_list_all
          digits_value)
next
  case False
  then have e: "show_integer i = digits (nat \<bar>i\<bar>)" by (simp add: show_integer_def)
  with strip_minus_show_integer [of i]
  have "strip_minus (digits (nat \<bar>i\<bar>)) = digits (nat \<bar>i\<bar>)" by simp
  with False show ?thesis
    by (simp add: read_integer_def e digits_not_Nil digits_list_all digits_value)
qed

lemma integer_codec: "number_codec show_integer read_integer"
  by (simp add: number_codec_def show_integer_syntax read_show_integer)

text \<open>Numerals, and texts that are none.\<close>

lemma numeral_examples:
  "json_number_syntax ''0''" "json_number_syntax ''-12.5''" "json_number_syntax ''1e+21''"
  "json_number_syntax ''1.5E-7''" "\<not> json_number_syntax ''012''" "\<not> json_number_syntax ''1.''"
  "\<not> json_number_syntax ''--1''" "\<not> json_number_syntax ''1e''" "\<not> json_number_syntax ''+1''"
  "\<not> json_number_syntax []" "\<not> json_number_syntax ''1.5.2''"
  by (simp_all add: json_number_syntax_def fraction_syntax_def exponent_syntax_def
        strip_minus_def strip_sign_def is_digit_def)

lemma strip_sign_cases: "cs = strip_sign cs \<or> (\<exists>c. number_char c \<and> cs = c # strip_sign cs)"
  by (cases cs) (auto simp: strip_sign_def number_char_def)

lemma digit_number_char: "list_all is_digit cs \<Longrightarrow> list_all number_char cs"
  by (induction cs) (auto simp: number_char_def)

lemma exponent_syntax_chars: "exponent_syntax s \<Longrightarrow> list_all number_char s"
proof (cases s)
  case Nil
  then show ?thesis by simp
next
  case (Cons c cs)
  assume "exponent_syntax s"
  with Cons have c: "number_char c" and d: "list_all is_digit (strip_sign cs)"
    by (auto simp: exponent_syntax_def number_char_def)
  from strip_sign_cases [of cs] have "list_all number_char cs"
  proof (elim disjE exE conjE)
    assume "cs = strip_sign cs"
    with digit_number_char [OF d] show ?thesis by simp
  next
    fix x
    assume "number_char x" "cs = x # strip_sign cs"
    with digit_number_char [OF d] show ?thesis by (metis list.pred_inject(2))
  qed
  with c Cons show ?thesis by simp
qed

lemma takeWhile_digit_chars: "list_all number_char (takeWhile is_digit cs)"
  by (induction cs) (auto simp: number_char_def)

lemma fraction_syntax_chars: "fraction_syntax s \<Longrightarrow> list_all number_char s"
proof (cases s)
  case Nil
  then show ?thesis by simp
next
  case (Cons c cs)
  assume f: "fraction_syntax s"
  show ?thesis
  proof (cases "c = CHR ''.''")
    case True
    with f Cons have "exponent_syntax (dropWhile is_digit cs)"
      by (simp add: fraction_syntax_def)
    then have "list_all number_char (dropWhile is_digit cs)" by (rule exponent_syntax_chars)
    with takeWhile_digit_chars [of cs]
    have "list_all number_char (takeWhile is_digit cs @ dropWhile is_digit cs)"
      by (simp del: takeWhile_dropWhile_id)
    with True Cons show ?thesis by (simp add: number_char_def)
  next
    case False
    with f Cons have "exponent_syntax s" by (simp add: fraction_syntax_def)
    then show ?thesis by (rule exponent_syntax_chars)
  qed
qed

lemma strip_minus_cases: "s = strip_minus s \<or> s = CHR ''-'' # strip_minus s"
  by (cases s) (auto simp: strip_minus_def)

lemma numeral_chars: "json_number_syntax s \<Longrightarrow> list_all number_char s"
proof -
  assume n: "json_number_syntax s"
  then have "fraction_syntax (dropWhile is_digit (strip_minus s))"
    by (simp add: json_number_syntax_def Let_def)
  then have "list_all number_char (dropWhile is_digit (strip_minus s))"
    by (rule fraction_syntax_chars)
  with takeWhile_digit_chars [of "strip_minus s"]
  have "list_all number_char
      (takeWhile is_digit (strip_minus s) @ dropWhile is_digit (strip_minus s))"
    by (simp del: takeWhile_dropWhile_id)
  then have m: "list_all number_char (strip_minus s)" by simp
  from strip_minus_cases [of s] show ?thesis
  proof
    assume "s = strip_minus s"
    with m show ?thesis by simp
  next
    assume "s = CHR ''-'' # strip_minus s"
    moreover have "number_char CHR ''-''" by (simp add: number_char_def)
    ultimately show ?thesis using m by (metis list.pred_inject(2))
  qed
qed

lemma numeral_first:
  "json_number_syntax s \<Longrightarrow> \<exists>c cs. s = c # cs \<and> (is_digit c \<or> c = CHR ''-'')"
proof -
  assume n: "json_number_syntax s"
  then have t: "takeWhile is_digit (strip_minus s) \<noteq> []"
    by (simp add: json_number_syntax_def Let_def)
  then obtain c cs where m: "strip_minus s = c # cs" and "is_digit c"
    by (cases "strip_minus s") (auto split: if_splits)
  with strip_minus_cases [of s] show ?thesis by metis
qed

lemma number_token_numeral:
  assumes "json_number_syntax tok" and "number_end rest"
  shows "number_token (tok @ rest) = Some (tok, rest)"
proof -
  from numeral_chars [OF assms(1)] have a: "\<forall>c \<in> set tok. number_char c"
    by (simp add: list_all_iff)
  have "takeWhile number_char (tok @ rest) = tok \<and> dropWhile number_char (tok @ rest) = rest"
    using a assms(2) by (cases rest) (simp_all add: number_end_def)
  with assms(1) show ?thesis by (simp add: number_token_def)
qed

lemma hex_value_hex_digit: "d < 16 \<Longrightarrow> hex_value (hex_digit d) = Some d"
  by (auto simp: hex_value_def hex_digit_def Let_def)

lemma hex_value_zero: "hex_value CHR ''0'' = Some 0"
  by (simp add: hex_value_def)

lemma hex4_control:
  "n < 32 \<Longrightarrow> hex4 CHR ''0'' CHR ''0'' (hex_digit (n div 16)) (hex_digit (n mod 16)) = Some n"
  by (simp add: hex4_def hex_value_zero hex_value_hex_digit)

lemma char_by_code: "(of_char c :: nat) = of_char d \<Longrightarrow> c = d"
  by (rule of_char_eqI)

lemma code_by_char: "(c = d) = ((of_char c :: nat) = of_char d)"
  by simp

lemma parse_chars_escape_char:
  "parse_chars (escape_char c @ tail) =
     map_option (\<lambda>(s, rest). (c # s, rest)) (parse_chars tail)"
proof -
  define n where "n = (of_char c :: nat)"
  have n: "n < 256" by (simp add: n_def)
  have q: "(c = CHR 0x22) = (n = 34)" and b: "(c = CHR 0x5C) = (n = 92)"
    by (simp_all add: n_def code_by_char [of c])
  consider "n = 8" | "n = 9" | "n = 10" | "n = 12" | "n = 13" | "n = 34" | "n = 92"
    | "n < 32" "n \<noteq> 8" "n \<noteq> 9" "n \<noteq> 10" "n \<noteq> 12" "n \<noteq> 13"
    | "32 \<le> n" "n \<noteq> 34" "n \<noteq> 92" by linarith
  then show ?thesis
  proof cases
    case 1
    then have "c = CHR 0x08" by (intro char_by_code) (simp add: n_def)
    then show ?thesis by (simp add: escape_char_def unescape_def)
  next
    case 2
    then have "c = CHR 0x09" by (intro char_by_code) (simp add: n_def)
    then show ?thesis by (simp add: escape_char_def unescape_def)
  next
    case 3
    then have "c = CHR 0x0A" by (intro char_by_code) (simp add: n_def)
    then show ?thesis by (simp add: escape_char_def unescape_def)
  next
    case 4
    then have "c = CHR 0x0C" by (intro char_by_code) (simp add: n_def)
    then show ?thesis by (simp add: escape_char_def unescape_def)
  next
    case 5
    then have "c = CHR 0x0D" by (intro char_by_code) (simp add: n_def)
    then show ?thesis by (simp add: escape_char_def unescape_def)
  next
    case 6
    then have "c = CHR 0x22" by (intro char_by_code) (simp add: n_def)
    then show ?thesis by (simp add: escape_char_def unescape_def)
  next
    case 7
    then have "c = CHR 0x5C" by (intro char_by_code) (simp add: n_def)
    then show ?thesis by (simp add: escape_char_def unescape_def)
  next
    case 8
    then have e: "escape_char c = [CHR 0x5C, CHR ''u'', CHR ''0'', CHR ''0'',
        hex_digit (n div 16), hex_digit (n mod 16)]"
      by (simp add: escape_char_def n_def [symmetric] Let_def)
    show ?thesis
      using 8(1) by (simp add: e hex4_control) (simp add: n_def)
  next
    case 9
    then have e: "escape_char c = [c]"
      by (simp add: escape_char_def n_def [symmetric] Let_def)
    from 9 show ?thesis
      by (simp add: e q b) (simp add: n_def)
  qed
qed

lemma parse_chars_escaped:
  "parse_chars (concat (map escape_char s) @ CHR 0x22 # rest) = Some (s, rest)"
  by (induction s) (simp_all add: parse_chars_escape_char)

lemma parse_chars_quote:
  "\<exists>q. quote s @ rest = CHR 0x22 # q \<and> parse_chars q = Some (s, rest)"
  by (simp add: quote_def parse_chars_escaped)

declare parse_value.simps [simp del] parse_elements.simps [simp del]
  parse_members.simps [simp del]

lemmas parse_Suc = parse_value.simps(2) parse_elements.simps(2) parse_members.simps(2)

lemma skip_ws_Cons: "\<not> is_ws c \<Longrightarrow> skip_ws (c # cs) = c # cs"
  by (simp add: skip_ws_def)


lemma number_first:
  assumes "number_codec shw rd"
  shows "\<exists>c cs. shw d = c # cs \<and> (is_digit c \<or> c = CHR ''-'')"
  using assms numeral_first [of "shw d"] by (simp add: number_codec_def)

lemma print_value_first:
  assumes "number_codec shw rd"
  shows "\<exists>c cs. print_value shw v = c # cs \<and> value_start c"
proof (cases v)
  case (JNumber n)
  show ?thesis
  proof (cases n)
    case (Finite d)
    from number_first [OF assms, of d] obtain c cs where
      "shw d = c # cs" "is_digit c \<or> c = CHR ''-''" by blast
    with JNumber Finite show ?thesis
      by (auto simp: value_start_def is_ws_def is_digit_def)
  qed (simp_all add: JNumber value_start_def is_ws_def)
qed (auto simp: value_start_def is_ws_def quote_def)

lemma print_elements_first:
  assumes "number_codec shw rd" and "vs \<noteq> []"
  shows "\<exists>c cs. print_elements shw vs = c # cs \<and> value_start c"
proof -
  from assms(2) obtain v ws where vs: "vs = v # ws" by (cases vs) auto
  from print_value_first [OF assms(1), of v] vs show ?thesis by (cases ws) auto
qed

lemma print_members_first:
  "ms \<noteq> [] \<Longrightarrow> \<exists>cs. print_members shw ms = CHR 0x22 # cs"
proof -
  assume "ms \<noteq> []"
  then obtain k v ws where ms: "ms = (k, v) # ws" by (cases ms) auto
  then show ?thesis by (cases ws) (auto simp: quote_def)
qed

lemma number_end_simps [simp]:
  "number_end (CHR '','' # cs)" "number_end (CHR '']'' # cs)" "number_end (CHR ''}'' # cs)"
  "number_end []"
  by (simp_all add: number_end_def number_char_def is_digit_def)

lemma parse_value_number:
  assumes "number_codec shw rd" and "number_end rest"
  shows "parse_value rd (Suc f) (shw d @ rest) = Some (JNumber (Finite d), rest)"
proof -
  from number_first [OF assms(1), of d] obtain c cs where
    p: "shw d = c # cs" and c: "is_digit c \<or> c = CHR ''-''" by blast
  from c have nws: "\<not> is_ws c" by (auto simp: is_ws_def is_digit_def)
  from c have other: "c \<noteq> CHR ''n''" "c \<noteq> CHR ''t''" "c \<noteq> CHR ''f''" "c \<noteq> CHR 0x22"
    "c \<noteq> CHR ''[''" "c \<noteq> CHR ''{''"
    by (auto simp: is_digit_def)
  from assms(1) have "json_number_syntax (shw d)" and r: "rd (shw d) = Finite d"
    by (simp_all add: number_codec_def)
  from number_token_numeral [OF this(1) assms(2)]
  have "number_token (c # cs @ rest) = Some (c # cs, rest)" by (simp add: p)
  then show ?thesis
    using r by (simp add: parse_Suc p skip_ws_Cons [OF nws] other)
qed

lemma parse_value_null:
  "parse_value rd (Suc f) (''null'' @ rest) = Some (JNull, rest)"
  by (simp add: parse_Suc skip_ws_def is_ws_def)

lemma parse_value_string:
  "parse_value rd (Suc f) (quote s @ rest) = Some (JString s, rest)"
proof -
  from parse_chars_quote [of s rest] obtain q where
    q: "quote s @ rest = CHR 0x22 # q" "parse_chars q = Some (s, rest)" by blast
  have nws: "\<not> is_ws (CHR 0x22)" by (simp add: is_ws_def)
  show ?thesis
    by (simp add: parse_Suc q skip_ws_Cons [OF nws])
qed

lemma print_roundtrip:
  assumes codec: "number_codec shw rd"
  shows
  "(\<forall>fuel rest. length (print_value shw v) \<le> fuel \<longrightarrow> number_end rest \<longrightarrow>
      parse_value rd fuel (print_value shw v @ rest) = Some (json_image v, rest))"
  "(vs \<noteq> [] \<longrightarrow> (\<forall>fuel rest. length (print_elements shw vs) \<le> fuel \<longrightarrow>
      parse_elements rd fuel (print_elements shw vs @ rest) = Some (map json_image vs, rest)))"
  "(ms \<noteq> [] \<longrightarrow> (\<forall>fuel rest. length (print_members shw ms) \<le> fuel \<longrightarrow>
      parse_members rd fuel (print_members shw ms @ rest) =
        Some (map (map_prod id json_image) ms, rest)))"
  using codec
proof (induction shw v and shw vs and shw ms rule: print_value_print_elements_print_members.induct)
  case (1 shw)
  show ?case
  proof (intro allI impI)
    fix fuel rest
    assume "length (print_value shw JNull) \<le> fuel"
    then obtain f where "fuel = Suc f" by (cases fuel) auto
    then show "parse_value rd fuel (print_value shw JNull @ rest) = Some (json_image JNull, rest)"
      by (simp add: parse_Suc skip_ws_def is_ws_def)
  qed
next
  case (2 shw b)
  show ?case
  proof (intro allI impI)
    fix fuel rest
    assume "length (print_value shw (JBool b)) \<le> fuel"
    then obtain f where "fuel = Suc f" by (cases fuel) (auto split: if_splits)
    then show "parse_value rd fuel (print_value shw (JBool b) @ rest) =
        Some (json_image (JBool b), rest)"
      by (simp add: parse_Suc skip_ws_def is_ws_def)
  qed
next
  case (3 shw n)
  show ?case
  proof (intro allI impI)
    fix fuel rest
    assume l: "length (print_value shw (JNumber n)) \<le> fuel" and r: "number_end rest"
    from print_value_first [OF 3, of "JNumber n"] l obtain f where f: "fuel = Suc f"
      by (cases fuel) auto
    show "parse_value rd fuel (print_value shw (JNumber n) @ rest) =
        Some (json_image (JNumber n), rest)"
    proof (cases n)
      case (Finite d)
      with parse_value_number [OF 3 r, of f d] show ?thesis
        by (simp add: f is_finite_def)
    next
      case NaN
      with parse_value_null [of rd f rest] show ?thesis by (simp add: f is_finite_def)
    next
      case Infinity
      with parse_value_null [of rd f rest] show ?thesis by (simp add: f is_finite_def)
    next
      case NegInfinity
      with parse_value_null [of rd f rest] show ?thesis by (simp add: f is_finite_def)
    qed
  qed
next
  case (4 shw s)
  show ?case
  proof (intro allI impI)
    fix fuel rest
    assume l: "length (print_value shw (JString s)) \<le> fuel"
    then obtain f where "fuel = Suc f" by (cases fuel) (auto simp: quote_def)
    then show "parse_value rd fuel (print_value shw (JString s) @ rest) =
        Some (json_image (JString s), rest)"
      by (simp add: parse_value_string)
  qed
next
  case (5 shw vs)
  show ?case
  proof (intro allI impI)
    fix fuel rest
    assume l: "length (print_value shw (JArray vs)) \<le> fuel"
    then obtain f where f: "fuel = Suc f" "length (print_elements shw vs) \<le> f"
      by (cases fuel) auto
    have nws: "\<not> is_ws CHR ''[''" by (simp add: is_ws_def)
    show "parse_value rd fuel (print_value shw (JArray vs) @ rest) =
        Some (json_image (JArray vs), rest)"
    proof (cases "vs = []")
      case True
      then show ?thesis by (simp add: parse_Suc f skip_ws_def is_ws_def)
    next
      case False
      from print_elements_first [OF "5.prems" False] obtain d ds where
        d: "print_elements shw vs = d # ds" "value_start d" by blast
      from "5.IH" [OF "5.prems"] False f
      have "parse_elements rd f (print_elements shw vs @ rest) = Some (map json_image vs, rest)"
        by blast
      with d show ?thesis
        by (simp add: parse_Suc f skip_ws_Cons [OF nws] value_start_def skip_ws_Cons)
    qed
  qed
next
  case (6 shw ms)
  show ?case
  proof (intro allI impI)
    fix fuel rest
    assume l: "length (print_value shw (JObject ms)) \<le> fuel"
    then obtain f where f: "fuel = Suc f" "length (print_members shw ms) \<le> f"
      by (cases fuel) auto
    have nws: "\<not> is_ws CHR ''{''" "\<not> is_ws (CHR 0x22)" by (simp_all add: is_ws_def)
    show "parse_value rd fuel (print_value shw (JObject ms) @ rest) =
        Some (json_image (JObject ms), rest)"
    proof (cases "ms = []")
      case True
      then show ?thesis by (simp add: parse_Suc f skip_ws_def is_ws_def)
    next
      case False
      from print_members_first [OF False] obtain ds where
        d: "print_members shw ms = CHR 0x22 # ds" by blast
      from "6.IH" [OF "6.prems"] False f
      have "parse_members rd f (print_members shw ms @ rest) =
          Some (map (map_prod id json_image) ms, rest)"
        by blast
      with d show ?thesis
        by (simp add: parse_Suc f skip_ws_Cons nws)
    qed
  qed
next
  case (7 shw)
  show ?case by simp
next
  case (8 shw v)
  show ?case
  proof (intro allI impI)
    fix fuel rest
    assume l: "length (print_elements shw [v]) \<le> fuel"
    then obtain f where f: "fuel = Suc f" "length (print_value shw v) \<le> f"
      by (cases fuel) auto
    with "8.IH" [OF "8.prems"]
    have "parse_value rd f (print_value shw v @ CHR '']'' # rest) =
        Some (json_image v, CHR '']'' # rest)"
      by simp
    then show "parse_elements rd fuel (print_elements shw [v] @ rest) =
        Some (map json_image [v], rest)"
      by (simp add: parse_Suc f skip_ws_def is_ws_def)
  qed
next
  case (9 shw v w vs)
  show ?case
  proof (intro allI impI)
    fix fuel rest
    assume l: "length (print_elements shw (v # w # vs)) \<le> fuel"
    from print_value_first [OF "9.prems", of v] have "1 \<le> length (print_value shw v)" by auto
    with l obtain f where f: "fuel = Suc f" "length (print_value shw v) \<le> f"
      "length (print_elements shw (w # vs)) \<le> f"
      by (cases fuel) auto
    with "9.IH"(1) [OF "9.prems"]
    have a: "parse_value rd f (print_value shw v @ CHR '','' # print_elements shw (w # vs) @ rest) =
        Some (json_image v, CHR '','' # print_elements shw (w # vs) @ rest)"
      by simp
    from "9.IH"(2) [OF "9.prems"] f
    have b: "parse_elements rd f (print_elements shw (w # vs) @ rest) =
        Some (map json_image (w # vs), rest)"
      by blast
    show "parse_elements rd fuel (print_elements shw (v # w # vs) @ rest) =
        Some (map json_image (v # w # vs), rest)"
      using b by (simp add: parse_Suc f a skip_ws_def is_ws_def)
  qed
next
  case (10 shw)
  show ?case by simp
next
  case (11 shw k v)
  show ?case
  proof (intro allI impI)
    fix fuel rest
    assume l: "length (print_members shw [(k, v)]) \<le> fuel"
    then obtain f where f: "fuel = Suc f" "length (print_value shw v) \<le> f"
      by (cases fuel) auto
    from parse_chars_quote [of k "CHR '':'' # print_value shw v @ CHR ''}'' # rest"] obtain q where
      q: "quote k @ CHR '':'' # print_value shw v @ CHR ''}'' # rest = CHR 0x22 # q"
      "parse_chars q = Some (k, CHR '':'' # print_value shw v @ CHR ''}'' # rest)" by blast
    from "11.IH" [OF "11.prems"] f
    have a: "parse_value rd f (print_value shw v @ CHR ''}'' # rest) =
        Some (json_image v, CHR ''}'' # rest)"
      by simp
    show "parse_members rd fuel (print_members shw [(k, v)] @ rest) =
        Some (map (map_prod id json_image) [(k, v)], rest)"
      by (simp add: parse_Suc f q a skip_ws_def is_ws_def)
  qed
next
  case (12 shw k v m ms)
  show ?case
  proof (intro allI impI)
    fix fuel rest
    assume l: "length (print_members shw ((k, v) # m # ms)) \<le> fuel"
    then obtain f where f: "fuel = Suc f" "length (print_value shw v) \<le> f"
      "length (print_members shw (m # ms)) \<le> f"
      by (cases fuel) (auto simp: quote_def)
    let ?tail = "CHR '','' # print_members shw (m # ms) @ rest"
    from parse_chars_quote [of k "CHR '':'' # print_value shw v @ ?tail"] obtain q where
      q: "quote k @ CHR '':'' # print_value shw v @ ?tail = CHR 0x22 # q"
      "parse_chars q = Some (k, CHR '':'' # print_value shw v @ ?tail)" by blast
    from "12.IH"(1) [OF "12.prems"] f
    have a: "parse_value rd f (print_value shw v @ ?tail) = Some (json_image v, ?tail)"
      by simp
    from "12.IH"(2) [OF "12.prems"] f
    have b: "parse_members rd f (print_members shw (m # ms) @ rest) =
        Some (map (map_prod id json_image) (m # ms), rest)"
      by blast
    show "parse_members rd fuel (print_members shw ((k, v) # m # ms) @ rest) =
        Some (map (map_prod id json_image) ((k, v) # m # ms), rest)"
      using b by (simp add: parse_Suc f q a skip_ws_def is_ws_def)
  qed
qed

lemma JSON_parse_stringify:
  assumes "number_codec shw rd"
  shows "JSON_parse rd (JSON_stringify shw v) = Some (json_image v)"
proof -
  have "parse_value rd (Suc (length (print_value shw v))) (print_value shw v @ []) =
      Some (json_image v, [])"
    using print_roundtrip(1) [OF assms, of v] by (simp del: append_Nil2)
  then have "parse_value rd (Suc (length (print_value shw v))) (print_value shw v) =
      Some (json_image v, [])"
    by simp
  then show ?thesis
    by (simp add: JSON_parse_def JSON_stringify_def skip_ws_def)
qed

lemma json_image_event: "finite_event x \<Longrightarrow> json_image (js_event x) = js_event x"
  by (cases x) (simp_all add: js_event_def finite_event_def)

lemma json_image_events:
  "list_all finite_event es \<Longrightarrow> map (json_image \<circ> js_event) es = map js_event es"
  by (induction es) (simp_all add: json_image_event)

lemma json_image_finite: "numbers_finite a \<Longrightarrow> json_image (js_value a) = js_value a"
  by (cases "a_seed a"; cases "a_startTime a"; cases "a_inputs a")
     (simp_all add: numbers_finite_def js_value_def js_field_def finite_field_def
        json_image_events)

lemma seed_of_image:
  "get_property (json_image (js_value a)) ''seed'' =
     Inr (map_option (\<lambda>n. if is_finite n then JNumber n else JNull) (a_seed a))"
  by (cases "a_seed a"; cases "a_startTime a"; cases "a_inputs a")
     (simp_all add: get_property_def js_value_def js_field_def)

lemma inputs_of_image:
  "get_property (json_image (js_value a)) ''inputs'' =
     Inr (map_option (\<lambda>es. JArray (map (json_image \<circ> js_event) es)) (a_inputs a))"
  by (cases "a_seed a"; cases "a_startTime a"; cases "a_inputs a")
     (simp_all add: get_property_def js_value_def js_field_def)

lemma deserialize_serialize:
  assumes "number_codec shw rd"
  shows "deserialize rd (serialize shw a) =
     (if truthy_field (a_seed a) \<and> finite_field (a_seed a) \<and> a_inputs a \<noteq> None
      then Inr (json_image (js_value a)) else Inl InvalidRecordingFormat)"
proof -
  have p: "JSON_parse rd (serialize shw a) = Some (json_image (js_value a))"
    by (simp add: serialize_def JSON_parse_stringify [OF assms])
  have s: "truthy_js (map_option (\<lambda>n. if is_finite n then JNumber n else JNull) (a_seed a)) =
      (truthy_field (a_seed a) \<and> finite_field (a_seed a))"
    by (cases "a_seed a")
       (auto simp: truthy_js_def truthy_field_def finite_field_def is_finite_def
          truthy_number_def split: number.splits)
  have t: "truthy_js (Some (JArray xs))" "\<not> truthy_js None" "Array_isArray (Some (JArray xs))"
    for xs :: "'a json list"
    by (simp_all add: truthy_js_def Array_isArray_def)
  show ?thesis
    by (cases "a_inputs a") (simp_all add: deserialize_def p seed_of_image inputs_of_image s t)
qed

lemma as_event_js: "as_event (js_event x) = Some x"
  by (cases x) (simp_all add: as_event_def js_event_def)

lemma those_as_event: "those (map (as_event \<circ> js_event) es) = Some es"
  by (induction es) (simp_all add: as_event_js)

lemma as_artifact_js: "as_artifact (js_value a) = Some a"
  by (cases "a_seed a"; cases "a_startTime a"; cases "a_inputs a")
     (simp_all add: as_artifact_def js_value_def js_field_def as_number_def as_events_def
        those_as_event)

lemma validate_fields:
  "validate a = Inr True \<Longrightarrow> truthy_field (a_seed a) \<and> a_inputs a \<noteq> None"
  by (auto simp: validate_def split: if_splits)

text \<open>C2 (amended): for every recording that passes \<^verbatim>\<open>validate\<close> and whose numbers are all
  finite, \<^verbatim>\<open>deserialize(serialize(a))\<close> returns the value of the recording, equal to it field for
  field: read back under the interface it is the recording, the input events in their order
  with their timestamps and actions. The language is taken at its word for the text of a finite
  number (\<open>number_codec\<close>): it is a numeral and reads back as the number.\<close>

theorem roundtrip_valid:
  "number_codec shw rd \<Longrightarrow> validate a = Inr True \<Longrightarrow> numbers_finite a \<Longrightarrow>
   deserialize rd (serialize shw a) = Inr (js_value a) \<and> as_artifact (js_value a) = Some a"
proof -
  assume c: "number_codec shw rd" and v: "validate a = Inr True" and f: "numbers_finite a"
  from f have "finite_field (a_seed a)" by (simp add: numbers_finite_def)
  with validate_fields [OF v] deserialize_serialize [OF c, of a] json_image_finite [OF f]
  show ?thesis by (simp add: as_artifact_js)
qed

lemma digits_small: "n < 10 \<Longrightarrow> digits n = [digit_char n]"
  by (subst digits.simps) simp

lemma digits_large: "10 \<le> n \<Longrightarrow> digits n = digits (n div 10) @ [digit_char (n mod 10)]"
  by (subst digits.simps) simp

text \<open>The text of the example recording, and of the recording whose final score is \<^verbatim>\<open>NaN\<close>.\<close>

lemma serialize_example:
  \<open>serialize show_integer (artifact_of example_recording) =
     ''{"seed":42,"startTime":1700000000000,"inputs":[{"timestamp":0,"action":"forward"},{"timestamp":250,"action":"left"}],"finalScore":1,"duration":1234,"version":"1.0.0"}''\<close>
  by (simp add: serialize_def JSON_stringify_def js_value_def js_event_def js_field_def
        artifact_of_def example_recording_def show_integer_def quote_def escape_char_def
        digit_char_def digits_small digits_large char_of_eq_code)

lemma serialize_nan_score:
  \<open>serialize show_integer nan_score =
     ''{"seed":42,"startTime":1700000000000,"inputs":[{"timestamp":0,"action":"forward"},{"timestamp":250,"action":"left"}],"finalScore":null,"duration":1234,"version":"1.0.0"}''\<close>
  by (simp add: serialize_def JSON_stringify_def js_value_def js_event_def js_field_def
        nan_score_def artifact_of_def example_recording_def show_integer_def quote_def
        escape_char_def digit_char_def digits_small digits_large char_of_eq_code)

lemma validate_example: "validate (artifact_of example_recording) = Inr True"
  by (simp add: validate_def artifact_of_def truthy_field_def truthy_number_def
        example_recording_def validActions_def)

lemma finite_example: "numbers_finite (artifact_of example_recording)"
  by (simp add: numbers_finite_def artifact_of_def finite_field_def finite_event_def
        is_finite_def example_recording_def)

text \<open>The amended C2 on the example recording, with the conversions of the integers.\<close>

theorem roundtrip_valid_witness:
  "number_codec show_integer read_integer \<and>
   validate (artifact_of example_recording) = Inr True \<and>
   numbers_finite (artifact_of example_recording) \<and>
   deserialize read_integer (serialize show_integer (artifact_of example_recording)) =
     Inr (js_value (artifact_of example_recording)) \<and>
   as_artifact (js_value (artifact_of example_recording)) = Some (artifact_of example_recording)"
  using roundtrip_valid [OF integer_codec validate_example finite_example]
    integer_codec validate_example finite_example
  by simp

text \<open>C2, as stated, fails on a number that is not finite, which \<^verbatim>\<open>JSON.stringify\<close> writes as
  \<^verbatim>\<open>null\<close>. The recording \<open>infinite_seed\<close> passes \<^verbatim>\<open>validate\<close>, for \<^verbatim>\<open>Infinity\<close> is truthy; in its
  text the seed is \<^verbatim>\<open>null\<close>, and \<^verbatim>\<open>deserialize\<close> throws the error of an invalid recording format.
  The recording \<open>nan_score\<close> passes \<^verbatim>\<open>validate\<close>, which does not look at the final score;
  \<^verbatim>\<open>deserialize\<close> returns a value whose final score is \<^verbatim>\<open>null\<close>, not \<^verbatim>\<open>NaN\<close>.\<close>

theorem nonfinite_number_counterexample:
  "validate infinite_seed = Inr True \<and>
   deserialize read_integer (serialize show_integer infinite_seed) = Inl InvalidRecordingFormat \<and>
   validate nan_score = Inr True \<and>
   (\<exists>v. deserialize read_integer (serialize show_integer nan_score) = Inr v \<and>
        get_property v ''finalScore'' = Inr (Some JNull)) \<and>
   get_property (js_value nan_score) ''finalScore'' = Inr (Some (JNumber NaN))"
proof -
  have 1: "validate infinite_seed = Inr True"
    by (simp add: validate_def infinite_seed_def artifact_of_def truthy_field_def
          truthy_number_def example_recording_def validActions_def)
  have 2: "deserialize read_integer (serialize show_integer infinite_seed) =
      Inl InvalidRecordingFormat"
    by (simp add: deserialize_serialize [OF integer_codec] infinite_seed_def finite_field_def
          is_finite_def)
  have 3: "validate nan_score = Inr True"
    by (simp add: validate_def nan_score_def artifact_of_def truthy_field_def
          truthy_number_def example_recording_def validActions_def)
  have 4: "deserialize read_integer (serialize show_integer nan_score) =
      Inr (json_image (js_value nan_score))"
    by (simp add: deserialize_serialize [OF integer_codec] nan_score_def artifact_of_def
          finite_field_def truthy_field_def truthy_number_def is_finite_def
          example_recording_def)
  have 5: "get_property (json_image (js_value nan_score)) ''finalScore'' = Inr (Some JNull)"
    by (simp add: get_property_def js_value_def js_field_def nan_score_def artifact_of_def
          is_finite_def)
  have 6: "get_property (js_value nan_score) ''finalScore'' = Inr (Some (JNumber NaN))"
    by (simp add: get_property_def js_value_def js_field_def nan_score_def artifact_of_def)
  from 1 2 3 4 5 6 show ?thesis by simp
qed

end
